theory Spec2Isabelle
  imports Main "HOL-Library.Multiset" "HOL-Library.Sublist"
begin

section \<open>Data model\<close>

text \<open>
  The loyalty backend keeps its state in MongoDB collections. Each collection is a list of
  documents in insertion order; a document is a record. An ObjectId is a natural number,
  a date is a number of milliseconds, and point amounts are integers (the JavaScript
  source uses doubles; every amount the modelled operations handle is taken to be integral).
  Document fields that no modelled operation reads or writes (timestamps, display
  translations, generated \<open>transaction_id\<close> strings) are left out.
\<close>

type_synonym oid = nat
type_synonym time = int

datatype lp_status = Active | Redeemed | Expired

datatype ledger_metadata = LedgerManual string "nat option"

record loyalty_points =
  lp_id :: oid
  lp_customer_id :: oid
  lp_points :: int
  lp_expiryDate :: time
  lp_transaction_id :: oid
  lp_earnedAt :: time
  lp_status :: lp_status
  lp_redeemedAt :: "time option"
  lp_metadata :: "ledger_metadata option"

text \<open>One element of \<open>usedLoyaltyPoints\<close>, the breakdown that \<open>redeemPointsFIFO\<close> accumulates.\<close>

record used_loyalty_point =
  loyalty_point_id :: oid
  original_points :: int
  points_used :: int
  fully_redeemed :: bool
  used_expiryDate :: time
  used_earnedAt :: time

datatype transaction_type =
  Earn | Redeem | Expire | Tier_downgrade | Tier_protection_adjustment

datatype tx_status = Completed | Pending

datatype tx_metadata =
    NoMetadata
  | ManualEarn string string "(string \<times> int) option" "nat option"
  | ManualRedeem string int "used_loyalty_point list"
  | TierProtection string string int
  | TierDowngrade string string int string "string option"

record transaction =
  tx_id :: oid
  tx_customer_id :: oid
  tx_type :: transaction_type
  tx_points :: int
  tx_point_criteria :: "oid option"
  tx_app_type :: "oid option"
  tx_status :: tx_status
  tx_note :: string
  tx_reference_id :: "oid option"
  tx_metadata :: tx_metadata
  tx_date :: time

record customer =
  c_id :: oid
  c_customer_id :: string
  c_tier :: "oid option"
  c_total_points :: int
  c_coins :: int

record tier =
  tier_id :: oid
  tier_name :: string
  hierarchy_level :: int
  points_required :: int

record tier_eligibility_criteria =
  tec_tier_id :: oid
  tec_is_active :: bool
  evaluation_period_days :: int
  consecutive_periods_required :: int
  net_earning_required :: int

record priority_customer =
  pc_customer_id :: oid
  pc_tier_id :: oid
  pc_is_active :: bool

record point_rule =
  pointType :: string
  pointRate :: "int option"

record point_criteria =
  pcr_id :: oid
  unique_code :: string
  pointSystem :: "point_rule list"

record db =
  customers :: "customer list"
  loyaltyPoints :: "loyalty_points list"
  transactions :: "transaction list"
  tiers :: "tier list"
  tierCriteria :: "tier_eligibility_criteria list"
  priorityCustomers :: "priority_customer list"
  pointCriterias :: "point_criteria list"

text \<open>
  The collaborators whose code is outside the modelled files are parameters of the model:
  \<^item> \<open>toObjectId\<close>: \<open>mongoose.Types.ObjectId.isValid\<close> together with the cast of a
    string to an ObjectId (\<open>None\<close> when the string is not a valid id);
  \<^item> \<open>findAppTypeByName\<close>: the query \<open>AppType.findOne({ name: new RegExp(...) })\<close> for
    a non-empty name. The name goes into the pattern unescaped, so the \<open>RegExp\<close>
    constructor throws a \<open>SyntaxError\<close> for a name that is no valid pattern (\<open>Inl\<close>
    with the engine's message); otherwise the result is the id of the matching app type, if
    there is one;
  \<^item> \<open>calculateExpiryDate\<close>: \<open>PointsExpirationRules.calculateExpiryDate\<close>, \<open>None\<close>
    when it throws;
  \<^item> \<open>loyaltyPointsAccepted\<close>: whether \<open>LoyaltyPoints.create\<close> accepts the document
    (it throws otherwise);
  \<^item> \<open>checkAndUpgradeTier\<close>: see below.
\<close>

datatype js_error = SyntaxError string

record env =
  toObjectId :: "string \<Rightarrow> oid option"
  findAppTypeByName :: "string \<Rightarrow> js_error + oid option"
  calculateExpiryDate :: "oid option \<Rightarrow> time option"
  loyaltyPointsAccepted :: "loyalty_points \<Rightarrow> bool"
  checkAndUpgradeTier :: "db \<Rightarrow> oid \<Rightarrow> oid option option"

text \<open>
  Modelled from the spec: \<open>tier.controller.checkAndUpgradeTier\<close> is not among the source
  files. The spec calls it the opportunistic tier evaluation after a grant, whose failure
  is logged and not fatal. It is taken to change at most the \<open>tier\<close> field of the customer
  it is called for: \<open>checkAndUpgradeTier e d i\<close> is \<open>None\<close> when the call throws, and
  \<open>Some t\<close> when it leaves customer \<open>i\<close> with tier reference \<open>t\<close>.
\<close>

section \<open>Strings\<close>

definition is_space :: "char \<Rightarrow> bool" where
  "is_space c = (c \<in> set [CHR '' '', CHR 0x09, CHR 0x0A, CHR 0x0B, CHR 0x0C, CHR 0x0D])"

definition trim :: "string \<Rightarrow> string" where
  "trim s = rev (dropWhile is_space (rev (dropWhile is_space s)))"

text \<open>\<open>normalizeString\<close>: \<open>(value || "").toString().trim()\<close>; an absent value is \<open>None\<close>.\<close>

definition normalizeString :: "string option \<Rightarrow> string" where
  "normalizeString value = (case value of None \<Rightarrow> [] | Some s \<Rightarrow> trim s)"

definition digit_char :: "nat \<Rightarrow> char" where
  "digit_char n = ''0123456789'' ! n"

fun show_nat :: "nat \<Rightarrow> string" where
  "show_nat n = (if n < 10 then [digit_char n] else show_nat (n div 10) @ [digit_char (n mod 10)])"

declare show_nat.simps [simp del]

definition show_int :: "int \<Rightarrow> string" where
  "show_int i = (if i < 0 then CHR ''-'' # show_nat (nat (- i)) else show_nat (nat i))"

fun join :: "string \<Rightarrow> string list \<Rightarrow> string" where
  "join sep [] = []"
| "join sep [x] = x"
| "join sep (x # y # ys) = x @ sep @ join sep (y # ys)"

text \<open>
  \<open>findAppType\<close>: \<open>null\<close> for an empty name, else the query above; \<open>Inl\<close> is the
  exception thrown while the pattern is built.
\<close>

definition findAppType :: "env \<Rightarrow> string option \<Rightarrow> js_error + oid option" where
  "findAppType e requestedBy =
     (let normalized = normalizeString requestedBy
      in if normalized = [] then Inr None else findAppTypeByName e normalized)"

fun error_message :: "js_error \<Rightarrow> string" where
  "error_message (SyntaxError msg) = msg"

definition buildManualNote :: "string \<Rightarrow> string \<Rightarrow> string" where
  "buildManualNote action note =
     ''Manual points '' @ action @ '' by admin - '' @ normalizeString (Some note)"

section \<open>Collection primitives\<close>

text \<open>
  \<open>findById\<close> returns the first document with the id; \<open>findByIdAndUpdate\<close> changes the
  first document with the id and leaves the collection alone when there is none.
\<close>

definition findCustomerById :: "oid \<Rightarrow> customer list \<Rightarrow> customer option" where
  "findCustomerById i cs = find (\<lambda>c. c_id c = i) cs"

fun updateCustomerById :: "oid \<Rightarrow> (customer \<Rightarrow> customer) \<Rightarrow> customer list \<Rightarrow> customer list" where
  "updateCustomerById i f [] = []"
| "updateCustomerById i f (c # cs) =
     (if c_id c = i then f c # cs else c # updateCustomerById i f cs)"

definition findLoyaltyPointsById :: "oid \<Rightarrow> loyalty_points list \<Rightarrow> loyalty_points option" where
  "findLoyaltyPointsById i ls = find (\<lambda>e. lp_id e = i) ls"

fun updateLoyaltyPointsById ::
  "oid \<Rightarrow> (loyalty_points \<Rightarrow> loyalty_points) \<Rightarrow> loyalty_points list \<Rightarrow> loyalty_points list" where
  "updateLoyaltyPointsById i f [] = []"
| "updateLoyaltyPointsById i f (e # es) =
     (if lp_id e = i then f e # es else e # updateLoyaltyPointsById i f es)"

definition findTierById :: "oid \<Rightarrow> tier list \<Rightarrow> tier option" where
  "findTierById i ts = find (\<lambda>t. tier_id t = i) ts"

text \<open>A created document gets an id that no document of the collection has.\<close>

definition freshTxId :: "transaction list \<Rightarrow> oid" where
  "freshTxId ts = Suc (fold max (map tx_id ts) 0)"

definition freshLpId :: "loyalty_points list \<Rightarrow> oid" where
  "freshLpId ls = Suc (fold max (map lp_id ls) 0)"

definition createTransaction :: "transaction \<Rightarrow> db \<Rightarrow> db \<times> transaction" where
  "createTransaction t d =
     (let t' = t\<lparr>tx_id := freshTxId (transactions d)\<rparr>
      in (d\<lparr>transactions := transactions d @ [t']\<rparr>, t'))"

section \<open>FIFO redemption\<close>

datatype fifo_message =
    InsufficientPoints int int
  | SuccessfullyRedeemed int

fun render_fifo_message :: "fifo_message \<Rightarrow> string" where
  "render_fifo_message (InsufficientPoints available requested) =
     ''Insufficient points. Available: '' @ show_int available @ '', Requested: '' @ show_int requested"
| "render_fifo_message (SuccessfullyRedeemed n) =
     ''Successfully redeemed '' @ show_int n @ '' points using FIFO''"

record fifo_result =
  success :: bool
  availablePoints :: int
  redeemedPoints :: int
  message :: fifo_message
  usedLoyaltyPoints :: "used_loyalty_point list"

text \<open>
  The query of \<open>redeemPointsFIFO\<close>: the customer's entries with \<open>expiryDate >= now\<close> and
  status active, sorted by \<open>earnedAt\<close> ascending. Entries with equal \<open>earnedAt\<close> keep
  their collection order.
\<close>

definition validPoints :: "time \<Rightarrow> db \<Rightarrow> oid \<Rightarrow> loyalty_points list" where
  "validPoints now d customerId =
     sort_key lp_earnedAt
       (filter (\<lambda>e. lp_customer_id e = customerId \<and> now \<le> lp_expiryDate e \<and> lp_status e = Active)
          (loyaltyPoints d))"

definition totalAvailablePoints :: "loyalty_points list \<Rightarrow> int" where
  "totalAvailablePoints vs = foldl (\<lambda>sum entry. sum + lp_points entry) 0 vs"

definition usedFully :: "loyalty_points \<Rightarrow> used_loyalty_point" where
  "usedFully entry =
     \<lparr>loyalty_point_id = lp_id entry, original_points = lp_points entry,
      points_used = lp_points entry, fully_redeemed = True,
      used_expiryDate = lp_expiryDate entry, used_earnedAt = lp_earnedAt entry\<rparr>"

definition usedPartly :: "loyalty_points \<Rightarrow> int \<Rightarrow> used_loyalty_point" where
  "usedPartly entry pointsToUse =
     \<lparr>loyalty_point_id = lp_id entry, original_points = lp_points entry,
      points_used = pointsToUse, fully_redeemed = False,
      used_expiryDate = lp_expiryDate entry, used_earnedAt = lp_earnedAt entry\<rparr>"

text \<open>
  The \<open>for\<close> loop of \<open>redeemPointsFIFO\<close> over the snapshot \<open>validPoints\<close>; the state is
  \<open>remainingPoints\<close>, \<open>actualRedeemedPoints\<close>, \<open>usedLoyaltyPoints\<close> and the ledger
  collection. The partial update writes \<open>entry.points - pointsToUse\<close> computed from the
  snapshot entry.
\<close>

fun redeem_loop ::
  "time \<Rightarrow> loyalty_points list \<Rightarrow> int \<Rightarrow> int \<Rightarrow> used_loyalty_point list \<Rightarrow> loyalty_points list
   \<Rightarrow> int \<times> used_loyalty_point list \<times> loyalty_points list" where
  "redeem_loop now [] remainingPoints actual used ls = (actual, used, ls)"
| "redeem_loop now (entry # rest) remainingPoints actual used ls =
     (if remainingPoints \<le> 0 then (actual, used, ls)
      else if lp_points entry \<le> remainingPoints then
        redeem_loop now rest (remainingPoints - lp_points entry) (actual + lp_points entry)
          (used @ [usedFully entry])
          (updateLoyaltyPointsById (lp_id entry)
             (\<lambda>e. e\<lparr>lp_status := Redeemed, lp_redeemedAt := Some now, lp_points := 0\<rparr>) ls)
      else
        redeem_loop now rest 0 (actual + remainingPoints)
          (used @ [usedPartly entry remainingPoints])
          (updateLoyaltyPointsById (lp_id entry)
             (\<lambda>e. e\<lparr>lp_points := lp_points entry - remainingPoints\<rparr>) ls))"

definition redeemPointsFIFO :: "time \<Rightarrow> db \<Rightarrow> oid \<Rightarrow> int \<Rightarrow> db \<times> fifo_result" where
  "redeemPointsFIFO now d customerId pointsToRedeem =
     (let vs = validPoints now d customerId;
          total = totalAvailablePoints vs
      in if total < pointsToRedeem then
           (d, \<lparr>success = False, availablePoints = total, redeemedPoints = 0,
                message = InsufficientPoints total pointsToRedeem, usedLoyaltyPoints = []\<rparr>)
         else
           (case redeem_loop now vs pointsToRedeem 0 [] (loyaltyPoints d) of
              (actual, used, ls) \<Rightarrow>
                (d\<lparr>loyaltyPoints := ls\<rparr>,
                 \<lparr>success = True, availablePoints = total, redeemedPoints = actual,
                  message = SuccessfullyRedeemed actual, usedLoyaltyPoints = used\<rparr>)))"

section \<open>Manual adjustment service\<close>

datatype payload =
    NoData
  | ErrorData string
  | AddedData transaction int int
  | ReducedData transaction int
  | BulkData nat nat "(nat \<times> string \<times> oid \<times> int) list"

record response =
  status_code :: nat
  response_message :: string
  response_data :: payload

definition response_handler :: "nat \<Rightarrow> string \<Rightarrow> payload \<Rightarrow> response" where
  "response_handler code msg data =
     \<lparr>status_code = code, response_message = msg, response_data = data\<rparr>"

record reduce_request =
  red_customer_id :: oid
  red_points :: int
  red_requested_by :: string
  red_note :: string

text \<open>
  \<open>reducePoints\<close> runs in one database transaction: every early return aborts it, and so
  does the \<open>catch\<close> that answers 500 when \<open>findAppType\<close> throws, so the state returned
  with an error response is the state the call started from.
\<close>

definition reducePoints :: "env \<Rightarrow> time \<Rightarrow> db \<Rightarrow> reduce_request \<Rightarrow> db \<times> response" where
  "reducePoints e now d req =
     (case findCustomerById (red_customer_id req) (customers d) of
        None \<Rightarrow> (d, response_handler 404 ''Customer not found'' NoData)
      | Some customer \<Rightarrow>
          if red_points req \<le> 0 then
            (d, response_handler 400 ''Points must be a positive number'' NoData)
          else
            (case redeemPointsFIFO now d (c_id customer) (red_points req) of
               (d1, fifoResult) \<Rightarrow>
                 if \<not> success fifoResult then
                   (d, response_handler 400 (render_fifo_message (message fifoResult)) NoData)
                 else
                   (case findAppType e (Some (red_requested_by req)) of
                      Inl err \<Rightarrow>
                        (d, response_handler 500 ''Failed to reduce manual points''
                              (ErrorData (error_message err)))
                    | Inr requestedAppType \<Rightarrow>
                        (case createTransaction
                                \<lparr>tx_id = 0, tx_customer_id = c_id customer, tx_type = Redeem,
                                 tx_points = - red_points req, tx_point_criteria = None,
                                 tx_app_type = requestedAppType,
                                 tx_status = Completed,
                                 tx_note = buildManualNote ''reduction'' (red_note req),
                                 tx_reference_id = None,
                                 tx_metadata = ManualRedeem (red_requested_by req)
                                     (redeemedPoints fifoResult) (usedLoyaltyPoints fifoResult),
                                 tx_date = now\<rparr> d1 of
                           (d2, newTransaction) \<Rightarrow>
                             (let cs = updateCustomerById (c_id customer)
                                         (\<lambda>c. c\<lparr>c_total_points := c_total_points c - red_points req\<rparr>)
                                         (customers d2)
                              in case findCustomerById (c_id customer) cs of
                                   None \<Rightarrow>
                                     (d, response_handler 500 ''Failed to reduce manual points''
                                           NoData)
                                 | Some updatedCustomer \<Rightarrow>
                                     (d2\<lparr>customers := cs\<rparr>,
                                      response_handler 200 ''Manual points reduced successfully''
                                        (ReducedData newTransaction
                                           (c_total_points updatedCustomer))))))))"

definition resolvePointCriteria :: "env \<Rightarrow> db \<Rightarrow> string option \<Rightarrow> point_criteria option" where
  "resolvePointCriteria e d identifier =
     (let normalized = normalizeString identifier
      in if normalized = [] then None
         else (case (case toObjectId e normalized of
                       None \<Rightarrow> None
                     | Some i \<Rightarrow> find (\<lambda>p. pcr_id p = i) (pointCriterias d)) of
                 Some byId \<Rightarrow> Some byId
               | None \<Rightarrow> find (\<lambda>p. unique_code p = normalized) (pointCriterias d)))"

definition getManualPointsForCriteria :: "point_criteria \<Rightarrow> string + int \<times> point_rule" where
  "getManualPointsForCriteria criteria =
     (case pointSystem criteria of
        [] \<Rightarrow> Inl ''Point criteria is missing point system configuration''
      | first # _ \<Rightarrow>
          (let fixedEntry =
                 (case find (\<lambda>entry. pointType entry = ''fixed'') (pointSystem criteria) of
                    Some r \<Rightarrow> r
                  | None \<Rightarrow> first)
           in case pointRate fixedEntry of
                None \<Rightarrow> Inl ''Point criteria does not have a valid fixed point rule''
              | Some rate \<Rightarrow>
                  if rate \<le> 0 then Inl ''Point criteria does not have a valid fixed point rule''
                  else Inr (rate, fixedEntry)))"

text \<open>\<open>customer.tier?._id ?? null\<close> on a customer read with \<open>populate("tier")\<close>.\<close>

definition populatedTier :: "db \<Rightarrow> customer \<Rightarrow> tier option" where
  "populatedTier d customer =
     (case c_tier customer of None \<Rightarrow> None | Some t \<Rightarrow> findTierById t (tiers d))"

text \<open>
  The \<open>try\<close> block that creates the ledger entry of a grant. When the expiry lookup or
  the creation throws, the \<open>catch\<close> only logs, and the state is left as it was.
\<close>

definition tryCreateLoyaltyPoints ::
  "env \<Rightarrow> time \<Rightarrow> customer \<Rightarrow> int \<Rightarrow> oid \<Rightarrow> ledger_metadata \<Rightarrow> db \<Rightarrow> db" where
  "tryCreateLoyaltyPoints e now customer pts txid meta d =
     (case calculateExpiryDate e (map_option tier_id (populatedTier d customer)) of
        None \<Rightarrow> d
      | Some expiryDate \<Rightarrow>
          (let entry = \<lparr>lp_id = freshLpId (loyaltyPoints d), lp_customer_id = c_id customer,
                        lp_points = pts, lp_expiryDate = expiryDate, lp_transaction_id = txid,
                        lp_earnedAt = now, lp_status = Active, lp_redeemedAt = None,
                        lp_metadata = Some meta\<rparr>
           in if loyaltyPointsAccepted e entry
              then d\<lparr>loyaltyPoints := loyaltyPoints d @ [entry]\<rparr>
              else d))"

definition applyTierCheck :: "oid \<Rightarrow> oid option \<Rightarrow> db \<Rightarrow> db" where
  "applyTierCheck i t d = d\<lparr>customers := updateCustomerById i (\<lambda>c. c\<lparr>c_tier := t\<rparr>) (customers d)\<rparr>"

definition tryCheckAndUpgradeTier :: "env \<Rightarrow> oid \<Rightarrow> db \<Rightarrow> db" where
  "tryCheckAndUpgradeTier e i d =
     (case checkAndUpgradeTier e d i of None \<Rightarrow> d | Some t \<Rightarrow> applyTierCheck i t d)"

record add_request =
  add_customer_id :: oid
  add_point_criteria :: string
  add_requested_by :: string
  add_note :: string

definition earnTransaction ::
  "time \<Rightarrow> oid \<Rightarrow> int \<Rightarrow> oid \<Rightarrow> oid option \<Rightarrow> string \<Rightarrow> tx_metadata \<Rightarrow> transaction" where
  "earnTransaction now cid pts crit app note meta =
     \<lparr>tx_id = 0, tx_customer_id = cid, tx_type = Earn, tx_points = pts,
      tx_point_criteria = Some crit, tx_app_type = app, tx_status = Completed,
      tx_note = buildManualNote ''addition'' note, tx_reference_id = None,
      tx_metadata = meta, tx_date = now\<rparr>"

definition addPointsIndividual :: "env \<Rightarrow> time \<Rightarrow> db \<Rightarrow> add_request \<Rightarrow> db \<times> response" where
  "addPointsIndividual e now d req =
     (case findCustomerById (add_customer_id req) (customers d) of
        None \<Rightarrow> (d, response_handler 404 ''Customer not found'' NoData)
      | Some customer \<Rightarrow>
          (case resolvePointCriteria e d (Some (add_point_criteria req)) of
             None \<Rightarrow> (d, response_handler 404 ''Point criteria not found'' NoData)
           | Some criteria \<Rightarrow>
               (case getManualPointsForCriteria criteria of
                  Inl msg \<Rightarrow> (d, response_handler 400 msg NoData)
                | Inr (pointsToAward, pointRule) \<Rightarrow>
                    (case findAppType e (Some (add_requested_by req)) of
                       Inl err \<Rightarrow>
                         (d, response_handler 500 ''Failed to add manual points''
                               (ErrorData (error_message err)))
                     | Inr requestedAppType \<Rightarrow>
                         (case createTransaction
                                 (earnTransaction now (c_id customer) pointsToAward
                                    (pcr_id criteria) requestedAppType (add_note req)
                                    (ManualEarn (add_requested_by req) (unique_code criteria)
                                       (Some (pointType pointRule, pointsToAward)) None)) d of
                            (d1, newTransaction) \<Rightarrow>
                              (let cs = updateCustomerById (c_id customer)
                                          (\<lambda>c. c\<lparr>c_total_points := c_total_points c + pointsToAward,
                                                 c_coins := c_coins c + pointsToAward\<rparr>)
                                          (customers d1)
                               in case findCustomerById (c_id customer) cs of
                                    None \<Rightarrow>
                                      (d, response_handler 500 ''Failed to update customer points''
                                            NoData)
                                  | Some updatedCustomer \<Rightarrow>
                                      (tryCheckAndUpgradeTier e (c_id customer)
                                         (tryCreateLoyaltyPoints e now customer pointsToAward
                                            (tx_id newTransaction)
                                            (LedgerManual (add_requested_by req) None)
                                            (d1\<lparr>customers := cs\<rparr>)),
                                       response_handler 201 ''Manual points added successfully''
                                         (AddedData newTransaction
                                            (c_total_points updatedCustomer) pointsToAward))))))))"

subsection \<open>Bulk upload\<close>

text \<open>
  A row of the uploaded sheet. A text column is \<open>None\<close> when the row has no such
  property; \<open>rr_points\<close> is \<open>Number(rawRow.points)\<close>, \<open>None\<close> when that is not finite
  (the column is absent or holds no number).
\<close>

record raw_row =
  rr_customer_id :: "string option"
  rr_points :: "int option"
  rr_point_criteria :: "string option"
  rr_note :: "string option"

datatype upload = Unparseable | Sheet "raw_row list"

record bulk_request =
  bulk_file :: "upload option"
  bulk_requested_by :: "string option"

record enriched_row =
  er_rowNumber :: nat
  er_customer :: customer
  er_criteria :: point_criteria
  er_points :: int
  er_note :: string

definition missingColumns :: "raw_row \<Rightarrow> string list" where
  "missingColumns rawRow =
     (if rr_customer_id rawRow = None then [''customer_id''] else []) @
     (if rr_point_criteria rawRow = None then [''point_criteria''] else []) @
     (if rr_note rawRow = None then [''note''] else [])"

definition rowError :: "nat \<Rightarrow> string \<Rightarrow> string" where
  "rowError rowNumber what = ''Row '' @ show_nat rowNumber @ '': '' @ what"

text \<open>The body of the validation loop for the row at \<open>index\<close>: an error message or the enriched row.\<close>

definition validate_row :: "env \<Rightarrow> db \<Rightarrow> nat \<Rightarrow> raw_row \<Rightarrow> string + enriched_row" where
  "validate_row e d index rawRow =
     (let rowNumber = index + 2 in
      if missingColumns rawRow \<noteq> [] then
        Inl (rowError rowNumber (''Missing columns '' @ join '', '' (missingColumns rawRow)))
      else
        (let customerIdentifier = normalizeString (rr_customer_id rawRow);
             criteriaIdentifier = normalizeString (rr_point_criteria rawRow);
             note = normalizeString (rr_note rawRow)
         in if customerIdentifier = [] then Inl (rowError rowNumber ''customer_id is required'')
            else (case rr_points rawRow of
                    None \<Rightarrow> Inl (rowError rowNumber ''points must be positive'')
                  | Some pointsValue \<Rightarrow>
                      if pointsValue \<le> 0 then Inl (rowError rowNumber ''points must be positive'')
                      else if criteriaIdentifier = [] then
                        Inl (rowError rowNumber ''point_criteria is required'')
                      else if note = [] then Inl (rowError rowNumber ''note is required'')
                      else
                        (case find (\<lambda>c. c_customer_id c = customerIdentifier) (customers d) of
                           None \<Rightarrow>
                             Inl (rowError rowNumber
                                    (''Customer '' @ customerIdentifier @ '' not found''))
                         | Some customer \<Rightarrow>
                             (case resolvePointCriteria e d (Some criteriaIdentifier) of
                                None \<Rightarrow>
                                  Inl (rowError rowNumber
                                         (''Point criteria '' @ criteriaIdentifier @ '' not found''))
                              | Some criteria \<Rightarrow>
                                  Inr \<lparr>er_rowNumber = rowNumber, er_customer = customer,
                                       er_criteria = criteria, er_points = pointsValue,
                                       er_note = note\<rparr>)))))"

fun validate_rows ::
  "env \<Rightarrow> db \<Rightarrow> nat \<Rightarrow> raw_row list \<Rightarrow> string list \<Rightarrow> enriched_row list
   \<Rightarrow> string list \<times> enriched_row list" where
  "validate_rows e d index [] validationErrors enrichedRows = (validationErrors, enrichedRows)"
| "validate_rows e d index (rawRow # rest) validationErrors enrichedRows =
     (case validate_row e d index rawRow of
        Inl err \<Rightarrow> validate_rows e d (index + 1) rest (validationErrors @ [err]) enrichedRows
      | Inr row \<Rightarrow> validate_rows e d (index + 1) rest validationErrors (enrichedRows @ [row]))"

text \<open>
  The grant loop over the enriched rows. \<open>None\<close> is the exception of reading
  \<open>updatedCustomer.total_points\<close> when the customer has gone, which aborts the batch.
\<close>

fun bulk_grant_loop ::
  "env \<Rightarrow> time \<Rightarrow> oid option \<Rightarrow> string \<Rightarrow> enriched_row list \<Rightarrow> db
   \<Rightarrow> (nat \<times> string \<times> oid \<times> int) list \<Rightarrow> (db \<times> (nat \<times> string \<times> oid \<times> int) list) option" where
  "bulk_grant_loop e now app requestedBy [] d processedDetails = Some (d, processedDetails)"
| "bulk_grant_loop e now app requestedBy (entry # rest) d processedDetails =
     (case createTransaction
             (earnTransaction now (c_id (er_customer entry)) (er_points entry)
                (pcr_id (er_criteria entry)) app (er_note entry)
                (ManualEarn requestedBy (unique_code (er_criteria entry)) None
                   (Some (er_rowNumber entry)))) d of
        (d1, createdTransaction) \<Rightarrow>
          (let cs = updateCustomerById (c_id (er_customer entry))
                      (\<lambda>c. c\<lparr>c_total_points := c_total_points c + er_points entry,
                             c_coins := c_coins c + er_points entry\<rparr>)
                      (customers d1)
           in case findCustomerById (c_id (er_customer entry)) cs of
                None \<Rightarrow> None
              | Some updatedCustomer \<Rightarrow>
                  bulk_grant_loop e now app requestedBy rest
                    (tryCreateLoyaltyPoints e now (er_customer entry) (er_points entry)
                       (tx_id createdTransaction)
                       (LedgerManual requestedBy (Some (er_rowNumber entry)))
                       (d1\<lparr>customers := cs\<rparr>))
                    (processedDetails @
                       [(er_rowNumber entry, c_customer_id (er_customer entry),
                         tx_id createdTransaction, c_total_points updatedCustomer)])))"

text \<open>The tier checks of a batch share one \<open>try\<close>: the first call that throws ends them.\<close>

fun bulk_tier_loop :: "env \<Rightarrow> enriched_row list \<Rightarrow> db \<Rightarrow> db" where
  "bulk_tier_loop e [] d = d"
| "bulk_tier_loop e (entry # rest) d =
     (case checkAndUpgradeTier e d (c_id (er_customer entry)) of
        None \<Rightarrow> d
      | Some t \<Rightarrow> bulk_tier_loop e rest (applyTierCheck (c_id (er_customer entry)) t d))"

definition addPointsBulk :: "env \<Rightarrow> time \<Rightarrow> db \<Rightarrow> bulk_request \<Rightarrow> db \<times> response" where
  "addPointsBulk e now d req =
     (case bulk_file req of
        None \<Rightarrow> (d, response_handler 400 ''No upload file provided'' NoData)
      | Some file \<Rightarrow>
          (let requestedBy = normalizeString (bulk_requested_by req) in
           if requestedBy = [] then
             (d, response_handler 400 ''requested_by is required for bulk upload'' NoData)
           else
             (case file of
                Unparseable \<Rightarrow> (d, response_handler 400 ''Unable to parse upload file'' NoData)
              | Sheet rows \<Rightarrow>
                  if rows = [] then
                    (d, response_handler 400 ''Uploaded file does not contain data'' NoData)
                  else
                    (case validate_rows e d 0 rows [] [] of
                       (validationErrors, enrichedRows) \<Rightarrow>
                         if validationErrors \<noteq> [] then
                           (d, response_handler 400 ''Bulk upload validation failed''
                                 (ErrorData (join ''; '' validationErrors)))
                         else
                           (case findAppType e (Some requestedBy) of
                              Inl err \<Rightarrow>
                                (d, response_handler 500 ''Failed to process bulk manual points''
                                      (ErrorData (error_message err)))
                            | Inr requestedAppType \<Rightarrow>
                                (case bulk_grant_loop e now requestedAppType requestedBy
                                        enrichedRows d [] of
                                   None \<Rightarrow>
                                     (d, response_handler 500
                                           ''Failed to process bulk manual points'' NoData)
                                 | Some (d1, processedDetails) \<Rightarrow>
                                     (bulk_tier_loop e enrichedRows d1,
                                      response_handler 200
                                        ''Bulk manual points added successfully''
                                        (BulkData (length enrichedRows) (length enrichedRows)
                                           processedDetails))))))))"


section \<open>Tier retention evaluator\<close>

text \<open>
  What \<open>checkTierRetentionEligibility\<close> writes to the log, which tells the branch that
  produced the verdict: the warning that no criteria were found, the failure in a period
  (its number and the periods achieved so far), the retention result after the loop, the
  or the message that the customer has sufficient points.
\<close>

datatype retention_log =
    NoCriteriaFound
  | FailedInPeriod nat nat
  | RetentionResult nat bool
  | SufficientPoints

definition ms_per_day :: int where
  "ms_per_day = 86400000"

text \<open>\<open>setDate(getDate() - n)\<close> moves a date back by \<open>n\<close> days of 24 hours.\<close>

definition periodEndDate :: "time \<Rightarrow> tier_eligibility_criteria \<Rightarrow> nat \<Rightarrow> time" where
  "periodEndDate now criteria periodIndex =
     now - int periodIndex * evaluation_period_days criteria * ms_per_day"

definition periodStartDate :: "time \<Rightarrow> tier_eligibility_criteria \<Rightarrow> nat \<Rightarrow> time" where
  "periodStartDate now criteria periodIndex =
     periodEndDate now criteria periodIndex - evaluation_period_days criteria * ms_per_day"

definition periodTransactions ::
  "db \<Rightarrow> time \<Rightarrow> customer \<Rightarrow> tier_eligibility_criteria \<Rightarrow> nat \<Rightarrow> transaction list" where
  "periodTransactions d now customer criteria periodIndex =
     filter (\<lambda>t. tx_customer_id t = c_id customer \<and> tx_type t = Earn \<and>
                 periodStartDate now criteria periodIndex \<le> tx_date t \<and>
                 tx_date t < periodEndDate now criteria periodIndex \<and>
                 tx_status t = Completed)
       (transactions d)"

definition periodNetEarnings ::
  "db \<Rightarrow> time \<Rightarrow> customer \<Rightarrow> tier_eligibility_criteria \<Rightarrow> nat \<Rightarrow> int" where
  "periodNetEarnings d now customer criteria periodIndex =
     foldl (\<lambda>sum t. sum + tx_points t) 0 (periodTransactions d now customer criteria periodIndex)"

text \<open>
  The loop over \<open>periodIndex\<close>, given the indices still to check and
  \<open>consecutivePeriodsWithSufficientEarnings\<close>.
\<close>

fun periods_loop ::
  "db \<Rightarrow> time \<Rightarrow> customer \<Rightarrow> tier_eligibility_criteria \<Rightarrow> nat list \<Rightarrow> nat \<Rightarrow> bool \<times> retention_log" where
  "periods_loop d now customer criteria [] achieved =
     (consecutive_periods_required criteria \<le> int achieved,
      RetentionResult achieved (consecutive_periods_required criteria \<le> int achieved))"
| "periods_loop d now customer criteria (periodIndex # rest) achieved =
     (if net_earning_required criteria \<le> periodNetEarnings d now customer criteria periodIndex
      then periods_loop d now customer criteria rest (achieved + 1)
      else (False, FailedInPeriod (periodIndex + 1) achieved))"

text \<open>\<open>TierEligibilityCriteria.findOne({ tier_id: tier._id, is_active: true })\<close>.\<close>

definition activeCriteriaOf :: "db \<Rightarrow> tier \<Rightarrow> tier_eligibility_criteria option" where
  "activeCriteriaOf d t = find (\<lambda>cr. tec_tier_id cr = tier_id t \<and> tec_is_active cr) (tierCriteria d)"

text \<open>
  The function is given a tier document. Called with \<open>null\<close> (a customer without a
  resolvable tier) it throws: reading \<open>tier._id\<close> fails in the \<open>try\<close>, and the \<open>catch\<close>
  reads \<open>tier._id\<close> again for its log entry. The processor, its only caller with a tier
  that can be \<open>null\<close>, models that exception.
\<close>

definition checkTierRetentionEligibility ::
  "db \<Rightarrow> time \<Rightarrow> customer \<Rightarrow> tier \<Rightarrow> bool \<times> retention_log" where
  "checkTierRetentionEligibility d now customer tier =
     (case activeCriteriaOf d tier of
        None \<Rightarrow> (points_required tier \<le> c_total_points customer, NoCriteriaFound)
      | Some criteria \<Rightarrow>
          if 0 \<le> c_total_points customer then
            periods_loop d now customer criteria
              [0 ..< nat (consecutive_periods_required criteria)] 0
          else (True, SufficientPoints))"

section \<open>Points and tier processor\<close>

subsection \<open>Expiry sweep\<close>

definition expiredPoints :: "time \<Rightarrow> db \<Rightarrow> loyalty_points list" where
  "expiredPoints now d =
     filter (\<lambda>e. lp_status e = Active \<and> lp_expiryDate e < now) (loyaltyPoints d)"

text \<open>The note of an expiry transaction carries the date, rendered here as its number.\<close>

definition expire_record :: "time \<Rightarrow> db \<Rightarrow> loyalty_points \<Rightarrow> db" where
  "expire_record now d pointRecord =
     (case createTransaction
             \<lparr>tx_id = 0, tx_customer_id = lp_customer_id pointRecord, tx_type = Expire,
              tx_points = - lp_points pointRecord, tx_point_criteria = None,
              tx_app_type = None, tx_status = Completed,
              tx_note = ''Points expired on '' @ show_int now,
              tx_reference_id = Some (lp_transaction_id pointRecord),
              tx_metadata = NoMetadata, tx_date = now\<rparr>
             (d\<lparr>loyaltyPoints :=
                  updateLoyaltyPointsById (lp_id pointRecord) (\<lambda>e. e\<lparr>lp_status := Expired\<rparr>)
                    (loyaltyPoints d)\<rparr>) of
        (d1, t) \<Rightarrow>
          d1\<lparr>customers :=
               updateCustomerById (lp_customer_id pointRecord)
                 (\<lambda>c. c\<lparr>c_total_points := c_total_points c - lp_points pointRecord\<rparr>)
                 (customers d1)\<rparr>)"

definition expireSweep :: "time \<Rightarrow> db \<Rightarrow> db" where
  "expireSweep now d = foldl (expire_record now) d (expiredPoints now d)"

subsection \<open>Tier processing\<close>

text \<open>\<open>Tier.find({}).sort({ hierarchy_level: -1 })\<close>: highest level first.\<close>

definition sortedTiers :: "db \<Rightarrow> tier list" where
  "sortedTiers d = sort_key (\<lambda>t. - hierarchy_level t) (tiers d)"

definition bronzeTierOf :: "tier list \<Rightarrow> tier option" where
  "bronzeTierOf ts =
     (case find (\<lambda>t. hierarchy_level t = 0) ts of
        Some b \<Rightarrow> Some b
      | None \<Rightarrow> (if ts = [] then None else Some (last ts)))"

definition customersToCheck :: "tier \<Rightarrow> db \<Rightarrow> customer list" where
  "customersToCheck bronzeTier d =
     filter (\<lambda>c. c_tier c \<noteq> Some (tier_id bronzeTier)) (customers d)"

text \<open>The active priority record of the customer with its \<open>tier_id\<close> populated.\<close>

definition priorityTierOf :: "db \<Rightarrow> oid \<Rightarrow> tier option" where
  "priorityTierOf d customerId =
     (case find (\<lambda>p. pc_customer_id p = customerId \<and> pc_is_active p) (priorityCustomers d) of
        None \<Rightarrow> None
      | Some priorityRecord \<Rightarrow> findTierById (pc_tier_id priorityRecord) (tiers d))"

text \<open>What the processor logs for a customer: the info and debug entries, or the error.\<close>

datatype outcome =
    ProtectionEnforced tier
  | Downgraded tier
  | RetainedByProtection
  | RetainedNoLowerTier
  | RetainedMeetsCriteria
  | ProcessingError

text \<open>The scan for the highest tier below the current one that the customer qualifies for.\<close>

fun scanTiers :: "db \<Rightarrow> time \<Rightarrow> customer \<Rightarrow> tier \<Rightarrow> tier list \<Rightarrow> tier \<Rightarrow> tier" where
  "scanTiers d now customer currentTier [] newTier = newTier"
| "scanTiers d now customer currentTier (t # rest) newTier =
     (if tier_id t = tier_id currentTier then scanTiers d now customer currentTier rest newTier
      else if hierarchy_level t < hierarchy_level currentTier then
        (if fst (checkTierRetentionEligibility d now customer t) then t
         else scanTiers d now customer currentTier rest newTier)
      else scanTiers d now customer currentTier rest newTier)"

definition clampToPriority :: "tier option \<Rightarrow> tier \<Rightarrow> tier" where
  "clampToPriority priorityTier newTier =
     (case priorityTier of
        None \<Rightarrow> newTier
      | Some pt \<Rightarrow> if hierarchy_level newTier < hierarchy_level pt then pt else newTier)"

definition setCustomerTier :: "oid \<Rightarrow> oid \<Rightarrow> db \<Rightarrow> db" where
  "setCustomerTier i t d =
     d\<lparr>customers := updateCustomerById i (\<lambda>c. c\<lparr>c_tier := Some t\<rparr>) (customers d)\<rparr>"

definition enforceProtection :: "time \<Rightarrow> customer \<Rightarrow> tier \<Rightarrow> tier \<Rightarrow> db \<Rightarrow> db" where
  "enforceProtection now customer currentTier priorityTier d =
     fst (createTransaction
            \<lparr>tx_id = 0, tx_customer_id = c_id customer, tx_type = Tier_protection_adjustment,
             tx_points = 0, tx_point_criteria = None, tx_app_type = None, tx_status = Completed,
             tx_note = ''Priority protection enforced: upgraded to '' @ tier_name priorityTier
                       @ '' minimum tier'',
             tx_reference_id = None,
             tx_metadata = TierProtection (tier_name currentTier) (tier_name priorityTier)
                             (c_total_points customer),
             tx_date = now\<rparr>
            (setCustomerTier (c_id customer) (tier_id priorityTier) d))"

definition applyDowngrade :: "time \<Rightarrow> customer \<Rightarrow> tier \<Rightarrow> tier \<Rightarrow> tier option \<Rightarrow> db \<Rightarrow> db" where
  "applyDowngrade now customer currentTier newTier priorityTier d =
     fst (createTransaction
            \<lparr>tx_id = 0, tx_customer_id = c_id customer, tx_type = Tier_downgrade,
             tx_points = 0, tx_point_criteria = None, tx_app_type = None, tx_status = Completed,
             tx_note = ''Tier downgraded from '' @ tier_name currentTier @ '' to ''
                       @ tier_name newTier @ '' due to insufficient activity'',
             tx_reference_id = None,
             tx_metadata =
               TierDowngrade (tier_name currentTier) (tier_name newTier) (c_total_points customer)
                 (if priorityTier = None then ''tier_retention_criteria_not_met''
                  else ''tier_retention_criteria_not_met_priority_protected'')
                 (map_option tier_name priorityTier),
             tx_date = now\<rparr>
            (setCustomerTier (c_id customer) (tier_id newTier) d))"

text \<open>
  The part of the loop body after the protection check: retention, scan, clamp, write. For a
  customer without a tier the retention check throws, the \<open>catch\<close> of the loop body logs
  the error, and the loop goes on with the next customer.
\<close>

definition evaluateDowngrade ::
  "time \<Rightarrow> tier list \<Rightarrow> tier \<Rightarrow> db \<Rightarrow> customer \<Rightarrow> tier option \<Rightarrow> tier option \<Rightarrow> db \<times> outcome" where
  "evaluateDowngrade now ts bronzeTier d customer currentTier priorityTier =
     (case currentTier of
        None \<Rightarrow> (d, ProcessingError)
      | Some ct \<Rightarrow>
          if fst (checkTierRetentionEligibility d now customer ct) then
            (d, RetainedMeetsCriteria)
          else
            (let newTier = clampToPriority priorityTier (scanTiers d now customer ct ts bronzeTier)
             in if hierarchy_level newTier < hierarchy_level ct then
                  (if tier_id newTier = tier_id ct then (d, RetainedByProtection)
                   else (applyDowngrade now customer ct newTier priorityTier d, Downgraded newTier))
                else (d, RetainedNoLowerTier)))"

definition process_customer ::
  "time \<Rightarrow> tier list \<Rightarrow> tier \<Rightarrow> db \<Rightarrow> customer \<Rightarrow> db \<times> outcome" where
  "process_customer now ts bronzeTier d customer =
     (let currentTier = populatedTier d customer;
          priorityTier = priorityTierOf d (c_id customer)
      in case priorityTier of
           None \<Rightarrow> evaluateDowngrade now ts bronzeTier d customer currentTier priorityTier
         | Some pt \<Rightarrow>
             (case currentTier of
                None \<Rightarrow> evaluateDowngrade now ts bronzeTier d customer currentTier priorityTier
              | Some ct \<Rightarrow>
                  if hierarchy_level ct < hierarchy_level pt then
                    (enforceProtection now customer ct pt d, ProtectionEnforced pt)
                  else evaluateDowngrade now ts bronzeTier d customer currentTier priorityTier))"

fun process_customers ::
  "time \<Rightarrow> tier list \<Rightarrow> tier \<Rightarrow> customer list \<Rightarrow> db \<Rightarrow> (oid \<times> outcome) list
   \<Rightarrow> db \<times> (oid \<times> outcome) list" where
  "process_customers now ts bronzeTier [] d log = (d, log)"
| "process_customers now ts bronzeTier (customer # rest) d log =
     (case process_customer now ts bronzeTier d customer of
        (d', out) \<Rightarrow> process_customers now ts bronzeTier rest d' (log @ [(c_id customer, out)]))"

text \<open>
  The whole run is one database transaction. Without any tier the run throws
  \<open>Bronze/Base tier not found\<close>, the transaction is aborted, and the state is the one the
  run started from (\<open>None\<close> in place of the log).
\<close>

definition processPointsAndTiers :: "time \<Rightarrow> db \<Rightarrow> db \<times> (oid \<times> outcome) list option" where
  "processPointsAndTiers now d =
     (let d1 = expireSweep now d;
          ts = sortedTiers d1
      in case bronzeTierOf ts of
           None \<Rightarrow> (d, None)
         | Some bronzeTier \<Rightarrow>
             (case process_customers now ts bronzeTier (customersToCheck bronzeTier d1) d1 [] of
                (d2, log) \<Rightarrow> (d2, Some log)))"

section \<open>Notions used to state the properties\<close>

text \<open>
  The sum of points over the customer's ledger entries with status active and
  \<open>expiryDate >= now\<close>.
\<close>

definition activeLedgerSum :: "time \<Rightarrow> db \<Rightarrow> oid \<Rightarrow> int" where
  "activeLedgerSum now d customerId =
     sum_list (map lp_points
       (filter (\<lambda>e. lp_customer_id e = customerId \<and> lp_status e = Active \<and> now \<le> lp_expiryDate e)
          (loyaltyPoints d)))"

text \<open>
  The breakdown that the redemption loop produces from \<open>remainingPoints\<close> and the entries
  still to walk, and the change a breakdown element stands for; both serve the proofs.
\<close>

fun fifo_plan :: "int \<Rightarrow> loyalty_points list \<Rightarrow> used_loyalty_point list" where
  "fifo_plan remaining [] = []"
| "fifo_plan remaining (entry # rest) =
     (if remaining \<le> 0 then []
      else if lp_points entry \<le> remaining
        then usedFully entry # fifo_plan (remaining - lp_points entry) rest
      else [usedPartly entry remaining])"

definition applyUsed :: "time \<Rightarrow> used_loyalty_point \<Rightarrow> loyalty_points \<Rightarrow> loyalty_points" where
  "applyUsed now u e =
     (if fully_redeemed u then e\<lparr>lp_status := Redeemed, lp_redeemedAt := Some now, lp_points := 0\<rparr>
      else e\<lparr>lp_points := original_points u - points_used u\<rparr>)"

text \<open>
  A row of a bulk upload is valid when its required columns are present, its customer id,
  point criteria and note are not empty, its points are a positive number, and its customer
  and point criteria resolve.
\<close>

definition row_valid :: "env \<Rightarrow> db \<Rightarrow> raw_row \<Rightarrow> bool" where
  "row_valid e d row =
     (rr_customer_id row \<noteq> None \<and> rr_point_criteria row \<noteq> None \<and> rr_note row \<noteq> None \<and>
      normalizeString (rr_customer_id row) \<noteq> [] \<and>
      (case rr_points row of None \<Rightarrow> False | Some p \<Rightarrow> 0 < p) \<and>
      normalizeString (rr_point_criteria row) \<noteq> [] \<and>
      normalizeString (rr_note row) \<noteq> [] \<and>
      find (\<lambda>c. c_customer_id c = normalizeString (rr_customer_id row)) (customers d) \<noteq> None \<and>
      resolvePointCriteria e d (Some (normalizeString (rr_point_criteria row))) \<noteq> None)"

text \<open>The messages of the rows that fail validation, from the row at \<open>index\<close> on.\<close>

fun rowErrorsFrom :: "env \<Rightarrow> db \<Rightarrow> nat \<Rightarrow> raw_row list \<Rightarrow> string list" where
  "rowErrorsFrom e d index [] = []"
| "rowErrorsFrom e d index (row # rest) =
     (case validate_row e d index row of Inl err \<Rightarrow> [err] | Inr _ \<Rightarrow> [])
       @ rowErrorsFrom e d (index + 1) rest"

text \<open>The points of a validated row.\<close>

definition rowPoints :: "raw_row \<Rightarrow> int" where
  "rowPoints row = (case rr_points row of None \<Rightarrow> 0 | Some p \<Rightarrow> p)"

subsection \<open>Example data\<close>

definition day :: "int \<Rightarrow> time" where
  "day n = n * ms_per_day"

text \<open>The tiers of the examples.\<close>

definition bronze :: tier where
  "bronze = \<lparr>tier_id = 31, tier_name = ''Bronze'', hierarchy_level = 0, points_required = 0\<rparr>"

definition silver :: tier where
  "silver = \<lparr>tier_id = 32, tier_name = ''Silver'', hierarchy_level = 1, points_required = 50\<rparr>"

definition gold :: tier where
  "gold = \<lparr>tier_id = 33, tier_name = ''Gold'', hierarchy_level = 2, points_required = 100\<rparr>"

text \<open>
  A customer at Bronze with two active entries: 50 points earned on day 1 and expiring on
  day 10, 100 points earned on day 5 and expiring on day 30. The collection holds the
  younger entry first.
\<close>

definition fifo_entry1 :: loyalty_points where
  "fifo_entry1 = \<lparr>lp_id = 11, lp_customer_id = 7, lp_points = 50, lp_expiryDate = day 10,
     lp_transaction_id = 21, lp_earnedAt = day 1, lp_status = Active, lp_redeemedAt = None,
     lp_metadata = None\<rparr>"

definition fifo_entry2 :: loyalty_points where
  "fifo_entry2 = \<lparr>lp_id = 12, lp_customer_id = 7, lp_points = 100, lp_expiryDate = day 30,
     lp_transaction_id = 22, lp_earnedAt = day 5, lp_status = Active, lp_redeemedAt = None,
     lp_metadata = None\<rparr>"

definition fifo_db :: db where
  "fifo_db = \<lparr>customers = [\<lparr>c_id = 7, c_customer_id = ''CUST000001'', c_tier = Some 31,
                              c_total_points = 150, c_coins = 150\<rparr>],
     loyaltyPoints = [fifo_entry2, fifo_entry1], transactions = [],
     tiers = [bronze, silver, gold], tierCriteria = [], priorityCustomers = [],
     pointCriterias = []\<rparr>"

text \<open>
  An environment without app types, in which the name \<open>(\<close> is no valid pattern and
  the expiry lookup answers day 365.
\<close>

definition plain_env :: env where
  "plain_env = \<lparr>toObjectId = (\<lambda>s. None),
     findAppTypeByName =
       (\<lambda>s. if s = ''('' then Inl (SyntaxError ''Invalid regular expression'')
            else Inr None),
     calculateExpiryDate = (\<lambda>t. Some (day 365)), loyaltyPointsAccepted = (\<lambda>e. True),
     checkAndUpgradeTier = (\<lambda>d i. None)\<rparr>"

text \<open>
  Only Bronze has eligibility criteria (two periods of 30 days with 10 points earned in
  each). The customer is at Gold with 40 points and one earn transaction on day 95.
\<close>

definition bronze_criteria :: tier_eligibility_criteria where
  "bronze_criteria = \<lparr>tec_tier_id = 31, tec_is_active = True, evaluation_period_days = 30,
     consecutive_periods_required = 2, net_earning_required = 10\<rparr>"

definition gold_customer :: customer where
  "gold_customer = \<lparr>c_id = 7, c_customer_id = ''CUST000001'', c_tier = Some 33,
     c_total_points = 40, c_coins = 40\<rparr>"

definition recent_earn :: transaction where
  "recent_earn = \<lparr>tx_id = 21, tx_customer_id = 7, tx_type = Earn, tx_points = 20,
     tx_point_criteria = None, tx_app_type = None, tx_status = Completed, tx_note = ''purchase'',
     tx_reference_id = None, tx_metadata = NoMetadata, tx_date = day 95\<rparr>"

definition tier_db :: db where
  "tier_db = \<lparr>customers = [gold_customer], loyaltyPoints = [], transactions = [recent_earn],
     tiers = [bronze, silver, gold], tierCriteria = [bronze_criteria], priorityCustomers = [],
     pointCriterias = []\<rparr>"

text \<open>
  Priority protection: customer 8 is at Bronze with guaranteed minimum Silver, customer 9 is
  at Silver with guaranteed minimum Gold, customer 10 is at Gold with 40 points and
  guaranteed minimum Silver.
\<close>

definition customer8 :: customer where
  "customer8 = \<lparr>c_id = 8, c_customer_id = ''CUST000008'', c_tier = Some 31,
     c_total_points = 10, c_coins = 10\<rparr>"

definition customer9 :: customer where
  "customer9 = \<lparr>c_id = 9, c_customer_id = ''CUST000009'', c_tier = Some 32,
     c_total_points = 60, c_coins = 60\<rparr>"

definition customer10 :: customer where
  "customer10 = \<lparr>c_id = 10, c_customer_id = ''CUST000010'', c_tier = Some 33,
     c_total_points = 40, c_coins = 40\<rparr>"

definition priority_records :: "priority_customer list" where
  "priority_records =
     [\<lparr>pc_customer_id = 8, pc_tier_id = 32, pc_is_active = True\<rparr>,
      \<lparr>pc_customer_id = 9, pc_tier_id = 33, pc_is_active = True\<rparr>,
      \<lparr>pc_customer_id = 10, pc_tier_id = 32, pc_is_active = True\<rparr>]"

definition protect_db :: db where
  "protect_db = \<lparr>customers = [customer9, customer10], loyaltyPoints = [], transactions = [],
     tiers = [bronze, silver, gold], tierCriteria = [bronze_criteria],
     priorityCustomers = priority_records, pointCriterias = []\<rparr>"

definition bronze_protected_db :: db where
  "bronze_protected_db = \<lparr>customers = [customer8], loyaltyPoints = [], transactions = [],
     tiers = [bronze, silver, gold], tierCriteria = [bronze_criteria],
     priorityCustomers = priority_records, pointCriterias = []\<rparr>"

text \<open>
  A point criteria with a fixed rate of 25 points, and an upload of three rows of which the
  second has no positive points and the third names an unknown customer.
\<close>

definition welcome_criteria :: point_criteria where
  "welcome_criteria = \<lparr>pcr_id = 41, unique_code = ''WELCOME'',
     pointSystem = [\<lparr>pointType = ''fixed'', pointRate = Some 25\<rparr>]\<rparr>"

definition grant_db :: db where
  "grant_db = fifo_db\<lparr>pointCriterias := [welcome_criteria]\<rparr>"

definition bulk_rows :: "raw_row list" where
  "bulk_rows =
     [\<lparr>rr_customer_id = Some ''CUST000001'', rr_points = Some 10,
       rr_point_criteria = Some ''WELCOME'', rr_note = Some ''bonus''\<rparr>,
      \<lparr>rr_customer_id = Some ''CUST000001'', rr_points = Some 0,
       rr_point_criteria = Some ''WELCOME'', rr_note = Some ''bonus''\<rparr>,
      \<lparr>rr_customer_id = Some ''CUST000999'', rr_points = Some 5,
       rr_point_criteria = Some ''WELCOME'', rr_note = Some ''bonus''\<rparr>]"

definition bulk_upload :: bulk_request where
  "bulk_upload = \<lparr>bulk_file = Some (Sheet bulk_rows), bulk_requested_by = Some ''admin''\<rparr>"

text \<open>A grant by the fixed-rate criteria to the customer of the ledger example, and its reversal.\<close>

definition welcome_grant :: add_request where
  "welcome_grant = \<lparr>add_customer_id = 7, add_point_criteria = ''WELCOME'',
     add_requested_by = ''admin'', add_note = ''welcome bonus''\<rparr>"

definition take_back :: reduce_request where
  "take_back = \<lparr>red_customer_id = 7, red_points = 25, red_requested_by = ''admin'',
     red_note = ''granted by mistake''\<rparr>"

definition fifo_customer :: customer where
  "fifo_customer = \<lparr>c_id = 7, c_customer_id = ''CUST000001'', c_tier = Some 31,
     c_total_points = 150, c_coins = 150\<rparr>"

definition welcome_transaction :: transaction where
  "welcome_transaction = \<lparr>tx_id = 1, tx_customer_id = 7, tx_type = Earn, tx_points = 25,
     tx_point_criteria = Some 41, tx_app_type = None, tx_status = Completed,
     tx_note = ''Manual points addition by admin - welcome bonus'', tx_reference_id = None,
     tx_metadata = ManualEarn ''admin'' ''WELCOME'' (Some (''fixed'', 25)) None,
     tx_date = day 6\<rparr>"





section \<open>Verified properties\<close>

subsection \<open>Ledger sums and lookups\<close>

lemma foldl_plus_sum_list:
  "foldl (\<lambda>s x. s + f x) a xs = (a::int) + sum_list (map f xs)"
  by (induction xs arbitrary: a) (simp_all add: add.assoc)

lemma sum_list_sort_key:
  "sum_list (map f (sort_key k xs)) = (sum_list (map f xs) :: int)"
proof -
  have "mset (map f (sort_key k xs)) = mset (map f xs)" by simp
  then show ?thesis by (metis sum_mset_sum_list)
qed

lemma totalAvailablePoints_validPoints:
  "totalAvailablePoints (validPoints now d cid) = activeLedgerSum now d cid"
proof -
  have "filter (\<lambda>e. lp_customer_id e = cid \<and> now \<le> lp_expiryDate e \<and> lp_status e = Active)
          (loyaltyPoints d)
      = filter (\<lambda>e. lp_customer_id e = cid \<and> lp_status e = Active \<and> now \<le> lp_expiryDate e)
          (loyaltyPoints d)"
    by (rule filter_cong) auto
  then show ?thesis
    by (simp add: totalAvailablePoints_def validPoints_def activeLedgerSum_def
        foldl_plus_sum_list sum_list_sort_key)
qed

lemma findCustomerById_id:
  "findCustomerById i cs = Some c \<Longrightarrow> c_id c = i"
  by (auto simp: findCustomerById_def find_Some_iff)

lemma redeemPointsFIFO_insufficient:
  assumes "activeLedgerSum now d cid < requested"
  shows "redeemPointsFIFO now d cid requested =
           (d, \<lparr>success = False, availablePoints = activeLedgerSum now d cid, redeemedPoints = 0,
                message = InsufficientPoints (activeLedgerSum now d cid) requested,
                usedLoyaltyPoints = []\<rparr>)"
  using assms by (simp add: redeemPointsFIFO_def totalAvailablePoints_validPoints Let_def)


subsection \<open>Insufficient points\<close>

text \<open>
  Claim C2. When the sum of the customer's active, unexpired ledger points is strictly less
  than the requested amount, \<open>redeemPointsFIFO\<close> returns the state it was given (no ledger
  entry, transaction or balance changes) together with the failure that reports the
  available sum and the requested amount. \<open>reducePoints\<close> then returns the state it
  started from as well, and for an existing customer and a positive amount (the requests that
  reach the delegation) it answers 400 with the message naming both amounts.
\<close>

theorem insufficient_points_mutates_nothing:
  assumes "activeLedgerSum now d cid < requested"
  shows "redeemPointsFIFO now d cid requested =
           (d, \<lparr>success = False, availablePoints = activeLedgerSum now d cid, redeemedPoints = 0,
                message = InsufficientPoints (activeLedgerSum now d cid) requested,
                usedLoyaltyPoints = []\<rparr>) \<and>
         render_fifo_message (InsufficientPoints (activeLedgerSum now d cid) requested) =
           ''Insufficient points. Available: '' @ show_int (activeLedgerSum now d cid)
             @ '', Requested: '' @ show_int requested \<and>
         fst (reducePoints e now d
                \<lparr>red_customer_id = cid, red_points = requested, red_requested_by = rb,
                 red_note = nt\<rparr>) = d \<and>
         (0 < requested \<and> findCustomerById cid (customers d) \<noteq> None \<longrightarrow>
            snd (reducePoints e now d
                   \<lparr>red_customer_id = cid, red_points = requested, red_requested_by = rb,
                    red_note = nt\<rparr>)
            = response_handler 400
                (''Insufficient points. Available: '' @ show_int (activeLedgerSum now d cid)
                   @ '', Requested: '' @ show_int requested) NoData)"
proof -
  let ?req = "\<lparr>red_customer_id = cid, red_points = requested, red_requested_by = rb,
               red_note = nt\<rparr>"
  note fifo = redeemPointsFIFO_insufficient[OF assms]
  have state: "fst (reducePoints e now d ?req) = d"
  proof (cases "findCustomerById cid (customers d)")
    case None
    then show ?thesis by (simp add: reducePoints_def)
  next
    case (Some c)
    then have "c_id c = cid" by (rule findCustomerById_id)
    with Some fifo show ?thesis by (simp add: reducePoints_def)
  qed
  have answer: "snd (reducePoints e now d ?req)
         = response_handler 400
            (''Insufficient points. Available: '' @ show_int (activeLedgerSum now d cid)
              @ '', Requested: '' @ show_int requested) NoData"
    if pos: "0 < requested" and ex: "findCustomerById cid (customers d) \<noteq> None"
  proof -
    from ex obtain c where c: "findCustomerById cid (customers d) = Some c" by blast
    then have "c_id c = cid" by (rule findCustomerById_id)
    with c pos fifo show ?thesis by (simp add: reducePoints_def)
  qed
  from fifo state answer show ?thesis by simp
qed

theorem insufficient_points_witness:
  "activeLedgerSum (day 6) fifo_db 7 < 200 \<and>
   redeemPointsFIFO (day 6) fifo_db 7 200 =
     (fifo_db, \<lparr>success = False, availablePoints = 150, redeemedPoints = 0,
                message = InsufficientPoints 150 200, usedLoyaltyPoints = []\<rparr>) \<and>
   reducePoints plain_env (day 6) fifo_db
     \<lparr>red_customer_id = 7, red_points = 200, red_requested_by = ''admin'', red_note = ''fix''\<rparr>
   = (fifo_db, response_handler 400 ''Insufficient points. Available: 150, Requested: 200'' NoData)"
proof -
  have avail: "activeLedgerSum (day 6) fifo_db 7 = 150"
    by (simp add: activeLedgerSum_def fifo_db_def fifo_entry1_def fifo_entry2_def day_def
        ms_per_day_def)
  then have h: "activeLedgerSum (day 6) fifo_db 7 < 200" by simp
  have found: "findCustomerById 7 (customers fifo_db) \<noteq> None"
    by (simp add: findCustomerById_def fifo_db_def)
  have shown: "show_int 150 = ''150''" "show_int 200 = ''200''"
    by (simp_all add: show_int_def show_nat.simps digit_char_def)
  from insufficient_points_mutates_nothing[OF h, of plain_env "''admin''" "''fix''"] found
  show ?thesis
    by (simp add: avail shown prod_eq_iff)
qed

subsection \<open>The redemption loop\<close>

lemma used_id_simps:
  "loyalty_point_id (usedFully e) = lp_id e"
  "loyalty_point_id (usedPartly e r) = lp_id e"
  by (simp_all add: usedFully_def usedPartly_def)

lemma find_updateLoyaltyPointsById:
  assumes "\<And>x. lp_id (f x) = lp_id x"
  shows "findLoyaltyPointsById j (updateLoyaltyPointsById i f ls) =
           (if i = j then map_option f (findLoyaltyPointsById j ls) else findLoyaltyPointsById j ls)"
  using assms by (induction ls) (auto simp: findLoyaltyPointsById_def)

lemma redeem_loop_used:
  "redeem_loop now es remaining actual used ls = (actual', used', ls') \<Longrightarrow>
     used' = used @ fifo_plan remaining es \<and>
     actual' = actual + sum_list (map points_used (fifo_plan remaining es))"
proof (induction es arbitrary: remaining actual used ls)
  case Nil
  then show ?case by simp
next
  case (Cons e es)
  show ?case
  proof (cases "remaining \<le> 0")
    case True
    with Cons.prems show ?thesis by simp
  next
    case False
    show ?thesis
    proof (cases "lp_points e \<le> remaining")
      case True
      with False Cons.prems Cons.IH show ?thesis
        by (fastforce simp: usedFully_def)
    next
      case part: False
      with False Cons.prems have
        "redeem_loop now es 0 (actual + remaining) (used @ [usedPartly e remaining])
           (updateLoyaltyPointsById (lp_id e) (\<lambda>x. x\<lparr>lp_points := lp_points e - remaining\<rparr>) ls)
         = (actual', used', ls')" by simp
      from Cons.IH[OF this] have "used' = (used @ [usedPartly e remaining]) @ fifo_plan 0 es"
        and "actual' = actual + remaining + sum_list (map points_used (fifo_plan 0 es))" by auto
      moreover have "fifo_plan 0 es = []" by (cases es) simp_all
      ultimately show ?thesis using False part by (simp add: usedPartly_def)
    qed
  qed
qed

lemma fifo_plan_ids:
  "map loyalty_point_id (fifo_plan remaining es) = map lp_id (take (length (fifo_plan remaining es)) es)"
  by (induction es arbitrary: remaining) (simp_all add: usedFully_def usedPartly_def)

lemma fifo_plan_length: "length (fifo_plan remaining es) \<le> length es"
  by (induction es arbitrary: remaining) (simp_all add: le_SucI)

lemma fifo_plan_nth:
  "i < length (fifo_plan remaining es) \<Longrightarrow>
     fifo_plan remaining es ! i = usedFully (es ! i) \<or>
     (Suc i = length (fifo_plan remaining es) \<and>
      (\<exists>r. 0 < r \<and> r < lp_points (es ! i) \<and> fifo_plan remaining es ! i = usedPartly (es ! i) r))"
proof (induction es arbitrary: remaining i)
  case Nil
  then show ?case by simp
next
  case (Cons e es)
  show ?case
  proof (cases "remaining \<le> 0")
    case True
    with Cons.prems show ?thesis by simp
  next
    case False
    show ?thesis
    proof (cases "lp_points e \<le> remaining")
      case True
      show ?thesis
      proof (cases i)
        case 0
        with False True show ?thesis by simp
      next
        case (Suc k)
        with Cons.prems False True have "k < length (fifo_plan (remaining - lp_points e) es)" by simp
        from Cons.IH[OF this] show ?thesis using False True Suc by simp
      qed
    next
      case part: False
      with False Cons.prems have "i = 0" by simp
      moreover from False part have "0 < remaining \<and> remaining < lp_points e" by simp
      ultimately show ?thesis using False part
        by (intro disjI2 conjI exI[of _ remaining]) simp_all
    qed
  qed
qed

lemma fifo_plan_sum:
  "0 \<le> remaining \<Longrightarrow> remaining \<le> sum_list (map lp_points es) \<Longrightarrow>
     sum_list (map points_used (fifo_plan remaining es)) = remaining"
proof (induction es arbitrary: remaining)
  case Nil
  then show ?case by simp
next
  case (Cons e es)
  show ?case
  proof (cases "remaining \<le> 0")
    case True
    with Cons.prems show ?thesis by simp
  next
    case False
    show ?thesis
    proof (cases "lp_points e \<le> remaining")
      case True
      with Cons.prems have "sum_list (map points_used (fifo_plan (remaining - lp_points e) es))
         = remaining - lp_points e" by (intro Cons.IH) simp_all
      with False True show ?thesis by (simp add: usedFully_def)
    next
      case part: False
      with False show ?thesis by (simp add: usedPartly_def)
    qed
  qed
qed

lemma redeem_loop_ledger:
  assumes "distinct (map lp_id es)"
    and "redeem_loop now es remaining actual used ls = (actual', used', ls')"
  shows "findLoyaltyPointsById j ls' =
           (case find (\<lambda>u. loyalty_point_id u = j) (fifo_plan remaining es) of
              None \<Rightarrow> findLoyaltyPointsById j ls
            | Some u \<Rightarrow> map_option (applyUsed now u) (findLoyaltyPointsById j ls))"
  using assms
proof (induction es arbitrary: remaining actual used ls)
  case Nil
  then show ?case by simp
next
  case (Cons e es)
  have notin: "lp_id e \<notin> set (map loyalty_point_id (fifo_plan r es))" for r
  proof -
    have "set (map lp_id (take (length (fifo_plan r es)) es)) \<subseteq> set (map lp_id es)"
      by (metis set_take_subset take_map)
    with Cons.prems(1) show ?thesis by (auto simp: fifo_plan_ids)
  qed
  have nofind: "find (\<lambda>u. loyalty_point_id u = lp_id e) (fifo_plan r es) = None" for r
    using notin[of r] by (force simp: find_None_iff)
  show ?case
  proof (cases "remaining \<le> 0")
    case True
    with Cons.prems show ?thesis by simp
  next
    case False
    show ?thesis
    proof (cases "lp_points e \<le> remaining")
      case True
      let ?f = "\<lambda>x. x\<lparr>lp_status := Redeemed, lp_redeemedAt := Some now, lp_points := 0\<rparr>"
      from True False Cons.prems have run:
        "redeem_loop now es (remaining - lp_points e) (actual + lp_points e) (used @ [usedFully e])
           (updateLoyaltyPointsById (lp_id e) ?f ls) = (actual', used', ls')" by simp
      from Cons.prems(1) have "distinct (map lp_id es)" by simp
      from Cons.IH[OF this run] have ih:
        "findLoyaltyPointsById j ls' =
           (case find (\<lambda>u. loyalty_point_id u = j) (fifo_plan (remaining - lp_points e) es) of
              None \<Rightarrow> findLoyaltyPointsById j (updateLoyaltyPointsById (lp_id e) ?f ls)
            | Some u \<Rightarrow> map_option (applyUsed now u)
                 (findLoyaltyPointsById j (updateLoyaltyPointsById (lp_id e) ?f ls)))" .
      have upd: "findLoyaltyPointsById j (updateLoyaltyPointsById (lp_id e) ?f ls) =
           (if lp_id e = j then map_option ?f (findLoyaltyPointsById j ls) else findLoyaltyPointsById j ls)"
        by (rule find_updateLoyaltyPointsById) simp
      have app: "applyUsed now (usedFully e) = ?f"
        by (rule ext) (simp add: applyUsed_def usedFully_def)
      show ?thesis
      proof (cases "lp_id e = j")
        case same: True
        with ih upd nofind[of "remaining - lp_points e"] False True app show ?thesis
          by (simp add: used_id_simps split: option.split)
      next
        case diff: False
        with ih upd False True show ?thesis by (simp add: used_id_simps split: option.split)
      qed
    next
      case part: False
      let ?f = "\<lambda>x. x\<lparr>lp_points := lp_points e - remaining\<rparr>"
      from part False Cons.prems have run:
        "redeem_loop now es 0 (actual + remaining) (used @ [usedPartly e remaining])
           (updateLoyaltyPointsById (lp_id e) ?f ls) = (actual', used', ls')" by simp
      have "fifo_plan 0 es = []" by (cases es) simp_all
      moreover from Cons.prems(1) have "distinct (map lp_id es)" by simp
      ultimately have ih: "findLoyaltyPointsById j ls' =
          findLoyaltyPointsById j (updateLoyaltyPointsById (lp_id e) ?f ls)"
        using Cons.IH[OF _ run] by simp
      have upd: "findLoyaltyPointsById j (updateLoyaltyPointsById (lp_id e) ?f ls) =
           (if lp_id e = j then map_option ?f (findLoyaltyPointsById j ls) else findLoyaltyPointsById j ls)"
        by (rule find_updateLoyaltyPointsById) simp
      have app: "applyUsed now (usedPartly e remaining) = ?f"
        by (rule ext) (simp add: applyUsed_def usedPartly_def)
      show ?thesis
        using ih upd False part app by (simp add: used_id_simps split: option.split)
    qed
  qed
qed

lemma find_distinct_nth:
  assumes "distinct (map f xs)" "i < length xs"
  shows "find (\<lambda>x. f x = f (xs ! i)) xs = Some (xs ! i)"
proof -
  have "\<forall>j<i. f (xs ! j) \<noteq> f (xs ! i)"
  proof (intro allI impI)
    fix j assume "j < i"
    with assms have "j < length (map f xs)" "i < length (map f xs)" "j \<noteq> i" by simp_all
    with assms(1) have "map f xs ! j \<noteq> map f xs ! i"
      unfolding distinct_conv_nth by blast
    with \<open>j < i\<close> assms(2) show "f (xs ! j) \<noteq> f (xs ! i)" by simp
  qed
  with assms(2) show ?thesis by (auto simp: find_Some_iff)
qed

lemma find_distinct_mem:
  assumes "distinct (map f xs)" "x \<in> set xs"
  shows "find (\<lambda>y. f y = f x) xs = Some x"
proof -
  from assms(2) obtain i where "i < length xs" "xs ! i = x" by (auto simp: in_set_conv_nth)
  with find_distinct_nth[OF assms(1), of i] show ?thesis by simp
qed

lemma validPoints_subset: "set (validPoints now d cid) \<subseteq> set (loyaltyPoints d)"
  by (auto simp: validPoints_def)

lemma validPoints_sorted: "sorted (map lp_earnedAt (validPoints now d cid))"
  by (simp add: validPoints_def)

lemma validPoints_distinct:
  assumes "distinct (map lp_id (loyaltyPoints d))"
  shows "distinct (map lp_id (validPoints now d cid))"
proof -
  let ?xs = "filter (\<lambda>e. lp_customer_id e = cid \<and> now \<le> lp_expiryDate e \<and> lp_status e = Active)
               (loyaltyPoints d)"
  have "mset (map lp_id (sort_key lp_earnedAt ?xs)) = mset (map lp_id ?xs)" by simp
  then have "distinct (map lp_id (sort_key lp_earnedAt ?xs)) = distinct (map lp_id ?xs)"
    by (rule mset_eq_imp_distinct_iff)
  with assms show ?thesis by (simp add: validPoints_def distinct_map_filter)
qed

lemma redeemPointsFIFO_success:
  assumes "redeemPointsFIFO now d cid requested = (d', r)" "success r"
  shows "\<exists>actual ls.
           redeem_loop now (validPoints now d cid) requested 0 [] (loyaltyPoints d)
             = (actual, usedLoyaltyPoints r, ls) \<and>
           d' = d\<lparr>loyaltyPoints := ls\<rparr> \<and> redeemedPoints r = actual \<and>
           requested \<le> totalAvailablePoints (validPoints now d cid)"
  using assms
  by (auto simp: redeemPointsFIFO_def Let_def split: if_splits prod.splits)

lemma fifo_example:
  "redeemPointsFIFO (day 6) fifo_db 7 60 =
     (fifo_db\<lparr>loyaltyPoints :=
        [fifo_entry2\<lparr>lp_points := 90\<rparr>,
         fifo_entry1\<lparr>lp_status := Redeemed, lp_redeemedAt := Some (day 6), lp_points := 0\<rparr>]\<rparr>,
      \<lparr>success = True, availablePoints = 150, redeemedPoints = 60,
       message = SuccessfullyRedeemed 60,
       usedLoyaltyPoints = [usedFully fifo_entry1, usedPartly fifo_entry2 10]\<rparr>)"
  by (simp add: redeemPointsFIFO_def validPoints_def totalAvailablePoints_def fifo_db_def
      fifo_entry1_def fifo_entry2_def day_def ms_per_day_def usedFully_def usedPartly_def Let_def)


text \<open>
  Claim C3. A successful \<open>redeemPointsFIFO\<close> walks the customer's active, unexpired
  entries in ascending \<open>earnedAt\<close> order: the breakdown lists a prefix of that walk, one
  element per entry with the entry's id, points and dates. An element marked fully redeemed
  used all the points of its entry, which is now \<open>redeemed\<close> with zero points; an element
  not so marked is the last one, used a positive part of its entry, and the entry keeps its
  status with the points decremented. Entries the breakdown does not name are untouched,
  and the points used add up to the amount redeemed. In the example (50 points earned on
  day 1, 100 points earned on day 5), redeeming 60 points redeems the day-1 entry and leaves
  the day-5 entry active with 90 points.
\<close>

theorem redeemPointsFIFO_walk:
  assumes ids: "distinct (map lp_id (loyaltyPoints d))"
    and run: "redeemPointsFIFO now d cid requested = (d', r)"
    and ok: "success r"
  shows "sorted (map lp_earnedAt (validPoints now d cid)) \<and>
    (\<forall>entry \<in> set (validPoints now d cid).
        lp_customer_id entry = cid \<and> lp_status entry = Active \<and> now \<le> lp_expiryDate entry) \<and>
    length (usedLoyaltyPoints r) \<le> length (validPoints now d cid) \<and>
    (\<forall>i < length (usedLoyaltyPoints r).
       let u = usedLoyaltyPoints r ! i; entry = validPoints now d cid ! i in
         loyalty_point_id u = lp_id entry \<and> original_points u = lp_points entry \<and>
         used_expiryDate u = lp_expiryDate entry \<and> used_earnedAt u = lp_earnedAt entry \<and>
         (if fully_redeemed u
          then points_used u = lp_points entry \<and>
               findLoyaltyPointsById (lp_id entry) (loyaltyPoints d') =
                 Some (entry\<lparr>lp_status := Redeemed, lp_redeemedAt := Some now, lp_points := 0\<rparr>)
          else Suc i = length (usedLoyaltyPoints r) \<and>
               0 < points_used u \<and> points_used u < lp_points entry \<and>
               findLoyaltyPointsById (lp_id entry) (loyaltyPoints d') =
                 Some (entry\<lparr>lp_points := lp_points entry - points_used u\<rparr>))) \<and>
    (\<forall>e \<in> set (loyaltyPoints d).
        lp_id e \<notin> loyalty_point_id ` set (usedLoyaltyPoints r) \<longrightarrow>
        findLoyaltyPointsById (lp_id e) (loyaltyPoints d') = Some e) \<and>
    d' = d\<lparr>loyaltyPoints := loyaltyPoints d'\<rparr> \<and>
    redeemedPoints r = sum_list (map points_used (usedLoyaltyPoints r)) \<and>
    (0 \<le> requested \<longrightarrow> redeemedPoints r = requested) \<and>
    redeemPointsFIFO (day 6) fifo_db 7 60 =
      (fifo_db\<lparr>loyaltyPoints :=
         [fifo_entry2\<lparr>lp_points := 90\<rparr>,
          fifo_entry1\<lparr>lp_status := Redeemed, lp_redeemedAt := Some (day 6), lp_points := 0\<rparr>]\<rparr>,
       \<lparr>success = True, availablePoints = 150, redeemedPoints = 60,
        message = SuccessfullyRedeemed 60,
        usedLoyaltyPoints = [usedFully fifo_entry1, usedPartly fifo_entry2 10]\<rparr>)"
proof -
  let ?vs = "validPoints now d cid"
  let ?us = "usedLoyaltyPoints r"
  from redeemPointsFIFO_success[OF run ok] obtain actual ls where
    loop: "redeem_loop now ?vs requested 0 [] (loyaltyPoints d) = (actual, ?us, ls)"
    and d': "d' = d\<lparr>loyaltyPoints := ls\<rparr>" and act: "redeemedPoints r = actual"
    and enough: "requested \<le> totalAvailablePoints ?vs" by blast
  from redeem_loop_used[OF loop] have us: "?us = fifo_plan requested ?vs"
    and actual: "actual = sum_list (map points_used (fifo_plan requested ?vs))" by simp_all
  have dvs: "distinct (map lp_id ?vs)" using ids by (rule validPoints_distinct)
  have ledger: "findLoyaltyPointsById j (loyaltyPoints d') =
           (case find (\<lambda>u. loyalty_point_id u = j) ?us of
              None \<Rightarrow> findLoyaltyPointsById j (loyaltyPoints d)
            | Some u \<Rightarrow> map_option (applyUsed now u) (findLoyaltyPointsById j (loyaltyPoints d)))" for j
    using redeem_loop_ledger[OF dvs loop, of j] by (simp add: d' us)
  have len: "length ?us \<le> length ?vs" by (simp add: us fifo_plan_length)
  have usids: "map loyalty_point_id ?us = map lp_id (take (length ?us) ?vs)"
    using fifo_plan_ids[of requested ?vs] by (simp add: us)
  have dus: "distinct (map loyalty_point_id ?us)"
    unfolding usids using dvs by (simp add: take_map[symmetric] distinct_take)
  have c1: "sorted (map lp_earnedAt ?vs)" by (rule validPoints_sorted)
  have c2: "\<forall>entry \<in> set ?vs.
        lp_customer_id entry = cid \<and> lp_status entry = Active \<and> now \<le> lp_expiryDate entry"
    by (auto simp: validPoints_def)
  have c4: "\<forall>i < length ?us.
       let u = ?us ! i; entry = ?vs ! i in
         loyalty_point_id u = lp_id entry \<and> original_points u = lp_points entry \<and>
         used_expiryDate u = lp_expiryDate entry \<and> used_earnedAt u = lp_earnedAt entry \<and>
         (if fully_redeemed u
          then points_used u = lp_points entry \<and>
               findLoyaltyPointsById (lp_id entry) (loyaltyPoints d') =
                 Some (entry\<lparr>lp_status := Redeemed, lp_redeemedAt := Some now, lp_points := 0\<rparr>)
          else Suc i = length ?us \<and>
               0 < points_used u \<and> points_used u < lp_points entry \<and>
               findLoyaltyPointsById (lp_id entry) (loyaltyPoints d') =
                 Some (entry\<lparr>lp_points := lp_points entry - points_used u\<rparr>))"
  proof (intro allI impI)
    fix i assume i: "i < length ?us"
    with len have iv: "i < length ?vs" by simp
    let ?u = "?us ! i" and ?e = "?vs ! i"
    have mem: "?e \<in> set (loyaltyPoints d)"
      using iv validPoints_subset[of now d cid] by (meson nth_mem subsetD)
    have orig: "findLoyaltyPointsById (lp_id ?e) (loyaltyPoints d) = Some ?e"
      unfolding findLoyaltyPointsById_def using ids mem by (rule find_distinct_mem)
    have uid: "loyalty_point_id ?u = lp_id ?e"
    proof -
      have "map loyalty_point_id ?us ! i = map lp_id (take (length ?us) ?vs) ! i"
        by (simp only: usids)
      with i iv show ?thesis by simp
    qed
    have fu: "find (\<lambda>u. loyalty_point_id u = lp_id ?e) ?us = Some ?u"
      using find_distinct_nth[OF dus i] by (simp add: uid)
    have after: "findLoyaltyPointsById (lp_id ?e) (loyaltyPoints d') = Some (applyUsed now ?u ?e)"
      by (simp add: ledger fu orig)
    from fifo_plan_nth[of i requested ?vs] i
    consider (full) "?u = usedFully ?e"
      | (part) rr where "Suc i = length ?us" "0 < rr" "rr < lp_points ?e" "?u = usedPartly ?e rr"
      by (auto simp: us)
    then show "let u = ?u; entry = ?e in
         loyalty_point_id u = lp_id entry \<and> original_points u = lp_points entry \<and>
         used_expiryDate u = lp_expiryDate entry \<and> used_earnedAt u = lp_earnedAt entry \<and>
         (if fully_redeemed u
          then points_used u = lp_points entry \<and>
               findLoyaltyPointsById (lp_id entry) (loyaltyPoints d') =
                 Some (entry\<lparr>lp_status := Redeemed, lp_redeemedAt := Some now, lp_points := 0\<rparr>)
          else Suc i = length ?us \<and>
               0 < points_used u \<and> points_used u < lp_points entry \<and>
               findLoyaltyPointsById (lp_id entry) (loyaltyPoints d') =
                 Some (entry\<lparr>lp_points := lp_points entry - points_used u\<rparr>))"
    proof cases
      case full
      with after show ?thesis by (simp add: Let_def usedFully_def applyUsed_def)
    next
      case part
      with after show ?thesis by (simp add: Let_def usedPartly_def applyUsed_def)
    qed
  qed
  have c5: "\<forall>e \<in> set (loyaltyPoints d).
        lp_id e \<notin> loyalty_point_id ` set ?us \<longrightarrow>
        findLoyaltyPointsById (lp_id e) (loyaltyPoints d') = Some e"
  proof (intro ballI impI)
    fix e assume e: "e \<in> set (loyaltyPoints d)" and no: "lp_id e \<notin> loyalty_point_id ` set ?us"
    from no have "find (\<lambda>u. loyalty_point_id u = lp_id e) ?us = None"
      by (force simp: find_None_iff)
    moreover have "findLoyaltyPointsById (lp_id e) (loyaltyPoints d) = Some e"
      unfolding findLoyaltyPointsById_def using ids e by (rule find_distinct_mem)
    ultimately show "findLoyaltyPointsById (lp_id e) (loyaltyPoints d') = Some e"
      by (simp add: ledger)
  qed
  have c6: "d' = d\<lparr>loyaltyPoints := loyaltyPoints d'\<rparr>" by (simp add: d')
  have c7: "redeemedPoints r = sum_list (map points_used ?us)" by (simp add: act actual us)
  have c8: "0 \<le> requested \<longrightarrow> redeemedPoints r = requested"
  proof
    assume "0 \<le> requested"
    moreover from enough have "requested \<le> sum_list (map lp_points ?vs)"
      by (simp add: totalAvailablePoints_def foldl_plus_sum_list)
    ultimately show "redeemedPoints r = requested"
      using fifo_plan_sum[of requested ?vs] by (simp add: act actual)
  qed
  show ?thesis
    using c1 c2 len c4 c5 c6 c7 c8 fifo_example by blast
qed


theorem redeemPointsFIFO_walk_witness:
  "distinct (map lp_id (loyaltyPoints fifo_db)) \<and>
   success (snd (redeemPointsFIFO (day 6) fifo_db 7 60)) \<and>
   redeemedPoints (snd (redeemPointsFIFO (day 6) fifo_db 7 60)) = 60 \<and>
   sorted (map lp_earnedAt (validPoints (day 6) fifo_db 7))"
proof -
  have h1: "distinct (map lp_id (loyaltyPoints fifo_db))"
    by (simp add: fifo_db_def fifo_entry1_def fifo_entry2_def)
  have h2: "redeemPointsFIFO (day 6) fifo_db 7 60 =
              (fst (redeemPointsFIFO (day 6) fifo_db 7 60),
               snd (redeemPointsFIFO (day 6) fifo_db 7 60))" by simp
  have h3: "success (snd (redeemPointsFIFO (day 6) fifo_db 7 60))"
    unfolding fifo_example by simp
  from redeemPointsFIFO_walk[OF h1 h2 h3] h1 h3 show ?thesis by simp
qed

subsection \<open>Tier retention\<close>

lemma periods_loop_upt:
  "k \<le> n \<Longrightarrow>
   periods_loop d now c cr [k ..< n] k =
     (case find (\<lambda>i. periodNetEarnings d now c cr i < net_earning_required cr) [k ..< n] of
        Some i \<Rightarrow> (False, FailedInPeriod (i + 1) i)
      | None \<Rightarrow> (consecutive_periods_required cr \<le> int n,
                 RetentionResult n (consecutive_periods_required cr \<le> int n)))"
proof (induction "n - k" arbitrary: k)
  case 0
  then show ?case by simp
next
  case (Suc m)
  then have lt: "k < n" and step: "m = n - Suc k" and le: "Suc k \<le> n" by simp_all
  from lt have upt: "[k ..< n] = k # [Suc k ..< n]" by (rule upt_conv_Cons)
  show ?case
    using Suc.hyps(1)[OF step le] by (simp add: upt not_less)
qed

lemma checkTier_with_criteria:
  assumes crit: "activeCriteriaOf d t = Some criteria"
    and pts: "0 \<le> c_total_points customer"
  shows "checkTierRetentionEligibility d now customer t =
           (case find (\<lambda>i. periodNetEarnings d now customer criteria i < net_earning_required criteria)
                   [0 ..< nat (consecutive_periods_required criteria)] of
              Some i \<Rightarrow> (False, FailedInPeriod (i + 1) i)
            | None \<Rightarrow> (True, RetentionResult (nat (consecutive_periods_required criteria)) True))"
  using crit pts
    periods_loop_upt[of 0 "nat (consecutive_periods_required criteria)" d now customer criteria]
  by (simp add: checkTierRetentionEligibility_def activeCriteriaOf_def split: option.split)

text \<open>
  Claim C6. When the tier has active eligibility criteria and the customer's
  \<open>total_points\<close> is not negative, the verdict of \<open>checkTierRetentionEligibility\<close> is
  the verdict of the consecutive-period check: it fails in the first period whose earn sum is
  below \<open>net_earning_required\<close> and retains when no period among the required ones fails.
  The branch that logs sufficient points is not taken, and the result depends neither on
  \<open>tier.points_required\<close> nor on the (non-negative) balance.
\<close>

theorem criteria_retention_decided_by_periods:
  assumes crit: "activeCriteriaOf d t = Some criteria"
    and pts: "0 \<le> c_total_points customer"
  shows "checkTierRetentionEligibility d now customer t =
           (case find (\<lambda>i. periodNetEarnings d now customer criteria i < net_earning_required criteria)
                   [0 ..< nat (consecutive_periods_required criteria)] of
              Some i \<Rightarrow> (False, FailedInPeriod (i + 1) i)
            | None \<Rightarrow> (True, RetentionResult (nat (consecutive_periods_required criteria)) True)) \<and>
         fst (checkTierRetentionEligibility d now customer t) =
           (\<forall>i < nat (consecutive_periods_required criteria).
               net_earning_required criteria \<le> periodNetEarnings d now customer criteria i) \<and>
         snd (checkTierRetentionEligibility d now customer t) \<noteq> SufficientPoints \<and>
         checkTierRetentionEligibility d now customer (t\<lparr>points_required := p\<rparr>) =
           checkTierRetentionEligibility d now customer t \<and>
         (0 \<le> q \<longrightarrow>
            checkTierRetentionEligibility d now (customer\<lparr>c_total_points := q\<rparr>) t =
              checkTierRetentionEligibility d now customer t)"
proof -
  let ?n = "nat (consecutive_periods_required criteria)"
  let ?fails = "\<lambda>i. periodNetEarnings d now customer criteria i < net_earning_required criteria"
  note main = checkTier_with_criteria[OF crit pts, of now]
  have verdict: "fst (checkTierRetentionEligibility d now customer t) =
           (\<forall>i < ?n. net_earning_required criteria \<le> periodNetEarnings d now customer criteria i)"
  proof (cases "find ?fails [0 ..< ?n]")
    case None
    have "\<forall>i < ?n. net_earning_required criteria \<le> periodNetEarnings d now customer criteria i"
    proof (intro allI impI)
      fix i assume "i < ?n"
      then have "i \<in> set [0 ..< ?n]" by simp
      with None have "\<not> ?fails i" unfolding find_None_iff by blast
      then show "net_earning_required criteria \<le> periodNetEarnings d now customer criteria i"
        by simp
    qed
    then show ?thesis unfolding main None by simp
  next
    case (Some i)
    then have "i < ?n" "?fails i" by (auto simp: find_Some_iff)
    then have "\<not> (\<forall>i < ?n. net_earning_required criteria \<le> periodNetEarnings d now customer criteria i)"
      by (auto simp: not_le)
    then show ?thesis unfolding main Some by simp
  qed
  have branch: "snd (checkTierRetentionEligibility d now customer t) \<noteq> SufficientPoints"
    unfolding main by (simp split: option.split)
  have threshold: "checkTierRetentionEligibility d now customer (t\<lparr>points_required := p\<rparr>) =
           checkTierRetentionEligibility d now customer t"
    using crit by (simp add: checkTierRetentionEligibility_def activeCriteriaOf_def)
  have pe: "periodNetEarnings d now (customer\<lparr>c_total_points := q\<rparr>) criteria =
            periodNetEarnings d now customer criteria"
    by (rule ext) (simp add: periodNetEarnings_def periodTransactions_def)
  have balance: "checkTierRetentionEligibility d now (customer\<lparr>c_total_points := q\<rparr>) t =
              checkTierRetentionEligibility d now customer t" if "0 \<le> q"
  proof -
    from that have "0 \<le> c_total_points (customer\<lparr>c_total_points := q\<rparr>)" by simp
    from checkTier_with_criteria[OF crit this, of now] show ?thesis
      unfolding main pe .
  qed
  from main verdict branch threshold balance show ?thesis by blast
qed

theorem criteria_retention_witness:
  "activeCriteriaOf tier_db bronze = Some bronze_criteria \<and>
   0 \<le> c_total_points gold_customer \<and>
   checkTierRetentionEligibility tier_db (day 100) gold_customer bronze
     = (False, FailedInPeriod 2 1)"
proof -
  have h1: "activeCriteriaOf tier_db bronze = Some bronze_criteria"
    by (simp add: activeCriteriaOf_def tier_db_def bronze_def bronze_criteria_def)
  have h2: "0 \<le> c_total_points gold_customer" by (simp add: gold_customer_def)
  have p0: "periodNetEarnings tier_db (day 100) gold_customer bronze_criteria 0 = 20"
    by (simp add: periodNetEarnings_def periodTransactions_def periodStartDate_def
        periodEndDate_def tier_db_def recent_earn_def gold_customer_def bronze_criteria_def
        day_def ms_per_day_def)
  have p1: "periodNetEarnings tier_db (day 100) gold_customer bronze_criteria (Suc 0) = 0"
    by (simp add: periodNetEarnings_def periodTransactions_def periodStartDate_def
        periodEndDate_def tier_db_def recent_earn_def gold_customer_def bronze_criteria_def
        day_def ms_per_day_def)
  have n: "[0 ..< nat (consecutive_periods_required bronze_criteria)] = [0, 1]"
    by (simp add: bronze_criteria_def upt_rec)
  have req: "net_earning_required bronze_criteria = 10" by (simp add: bronze_criteria_def)
  from criteria_retention_decided_by_periods[OF h1 h2, of "day 100" 0 0] h1 h2
  show ?thesis by (simp add: n p0 p1 req)
qed

lemma checkTier_without_criteria:
  "activeCriteriaOf d t = None \<Longrightarrow>
   checkTierRetentionEligibility d now customer t =
     (points_required t \<le> c_total_points customer, NoCriteriaFound)"
  by (simp add: checkTierRetentionEligibility_def)

lemma scanTiers_default:
  assumes "\<forall>t' \<in> set ts. tier_id t' \<noteq> tier_id t \<and> hierarchy_level t' < hierarchy_level t \<longrightarrow>
             \<not> fst (checkTierRetentionEligibility d now customer t')"
  shows "scanTiers d now customer t ts newTier = newTier"
  using assms by (induction ts) auto

lemma sorted_le_last:
  "sorted xs \<Longrightarrow> x \<in> set xs \<Longrightarrow> x \<le> (last xs :: int)"
  by (induction xs) auto

lemma bronzeTierOf_lowest:
  assumes b: "bronzeTierOf (sortedTiers d) = Some b"
    and nonneg: "\<forall>x \<in> set (tiers d). 0 \<le> hierarchy_level x"
  shows "\<forall>x \<in> set (tiers d). hierarchy_level b \<le> hierarchy_level x"
proof (cases "find (\<lambda>t. hierarchy_level t = 0) (sortedTiers d)")
  case (Some b')
  with b have "b' = b" by (simp add: bronzeTierOf_def)
  with Some have "hierarchy_level b = 0" by (auto simp: find_Some_iff)
  with nonneg show ?thesis by simp
next
  case None
  let ?ts = "sortedTiers d"
  from None b have ne: "?ts \<noteq> []" and last: "b = last ?ts"
    by (auto simp: bronzeTierOf_def split: if_splits)
  have srt: "sorted (map (\<lambda>t. - hierarchy_level t) ?ts)" by (simp add: sortedTiers_def)
  show ?thesis
  proof
    fix x assume "x \<in> set (tiers d)"
    then have "- hierarchy_level x \<in> set (map (\<lambda>t. - hierarchy_level t) ?ts)"
      by (simp add: sortedTiers_def)
    with srt have "- hierarchy_level x \<le> last (map (\<lambda>t. - hierarchy_level t) ?ts)"
      by (rule sorted_le_last)
    with ne last show "hierarchy_level b \<le> hierarchy_level x" by (simp add: last_map)
  qed
qed

text \<open>
  Claim C7. When the tier has no active eligibility criteria, \<open>checkTierRetentionEligibility\<close>
  retains exactly when \<open>customer.total_points >= tier.points_required\<close>; a customer with 40
  points against a requirement of 100 is to be downgraded. When no tier below the current one
  passes its own evaluation, the scan leaves the target at the base tier it started from, and
  an unprotected customer who fails retention is written to that base tier. The base tier
  that \<open>processPointsAndTiers\<close> picks has the lowest hierarchy level when no tier has a
  negative level.
\<close>

theorem no_criteria_threshold_and_base_default:
  assumes nocrit: "activeCriteriaOf d t = None"
  shows "fst (checkTierRetentionEligibility d now customer t) =
           (points_required t \<le> c_total_points customer) \<and>
         (c_total_points customer = 40 \<and> points_required t = 100 \<longrightarrow>
            \<not> fst (checkTierRetentionEligibility d now customer t)) \<and>
         ((\<forall>t' \<in> set ts. tier_id t' \<noteq> tier_id t \<and> hierarchy_level t' < hierarchy_level t \<longrightarrow>
              \<not> fst (checkTierRetentionEligibility d now customer t')) \<longrightarrow>
            scanTiers d now customer t ts bronzeTier = bronzeTier \<and>
            (c_total_points customer < points_required t \<and>
             hierarchy_level bronzeTier < hierarchy_level t \<and> tier_id bronzeTier \<noteq> tier_id t \<longrightarrow>
               evaluateDowngrade now ts bronzeTier d customer (Some t) None =
                 (applyDowngrade now customer t bronzeTier None d, Downgraded bronzeTier))) \<and>
         (bronzeTierOf (sortedTiers d) = Some b \<and> (\<forall>x \<in> set (tiers d). 0 \<le> hierarchy_level x) \<longrightarrow>
            (\<forall>x \<in> set (tiers d). hierarchy_level b \<le> hierarchy_level x))"
proof -
  note chk = checkTier_without_criteria[OF nocrit, of now customer]
  have a: "fst (checkTierRetentionEligibility d now customer t) =
           (points_required t \<le> c_total_points customer)" by (simp add: chk)
  have b: "c_total_points customer = 40 \<and> points_required t = 100 \<longrightarrow>
            \<not> fst (checkTierRetentionEligibility d now customer t)" by (simp add: chk)
  have c: "scanTiers d now customer t ts bronzeTier = bronzeTier \<and>
            (c_total_points customer < points_required t \<and>
             hierarchy_level bronzeTier < hierarchy_level t \<and> tier_id bronzeTier \<noteq> tier_id t \<longrightarrow>
               evaluateDowngrade now ts bronzeTier d customer (Some t) None =
                 (applyDowngrade now customer t bronzeTier None d, Downgraded bronzeTier))"
    if nolower: "\<forall>t' \<in> set ts. tier_id t' \<noteq> tier_id t \<and> hierarchy_level t' < hierarchy_level t \<longrightarrow>
              \<not> fst (checkTierRetentionEligibility d now customer t')"
    using scanTiers_default[OF nolower, of bronzeTier]
    by (simp add: evaluateDowngrade_def chk clampToPriority_def Let_def)
  have e: "bronzeTierOf (sortedTiers d) = Some b \<and> (\<forall>x \<in> set (tiers d). 0 \<le> hierarchy_level x) \<longrightarrow>
            (\<forall>x \<in> set (tiers d). hierarchy_level b \<le> hierarchy_level x)"
    using bronzeTierOf_lowest by blast
  from a b c e show ?thesis by blast
qed

theorem no_criteria_witness:
  "activeCriteriaOf tier_db gold = None \<and>
   \<not> fst (checkTierRetentionEligibility tier_db (day 100) gold_customer gold) \<and>
   bronzeTierOf (sortedTiers tier_db) = Some bronze \<and>
   evaluateDowngrade (day 100) (sortedTiers tier_db) bronze tier_db gold_customer (Some gold) None =
     (applyDowngrade (day 100) gold_customer gold bronze None tier_db, Downgraded bronze)"
proof -
  have h: "activeCriteriaOf tier_db gold = None"
    by (simp add: activeCriteriaOf_def tier_db_def gold_def bronze_criteria_def)
  have ts: "sortedTiers tier_db = [gold, silver, bronze]"
    by (simp add: sortedTiers_def tier_db_def gold_def silver_def bronze_def)
  have base: "bronzeTierOf (sortedTiers tier_db) = Some bronze"
    by (simp add: ts bronzeTierOf_def gold_def silver_def bronze_def)
  have s: "\<not> fst (checkTierRetentionEligibility tier_db (day 100) gold_customer silver)"
    by (simp add: checkTierRetentionEligibility_def activeCriteriaOf_def tier_db_def silver_def
        bronze_criteria_def gold_customer_def)
  have p0: "periodNetEarnings tier_db (day 100) gold_customer bronze_criteria 0 = 20"
    by (simp add: periodNetEarnings_def periodTransactions_def periodStartDate_def
        periodEndDate_def tier_db_def recent_earn_def gold_customer_def bronze_criteria_def
        day_def ms_per_day_def)
  have p1: "periodNetEarnings tier_db (day 100) gold_customer bronze_criteria (Suc 0) = 0"
    by (simp add: periodNetEarnings_def periodTransactions_def periodStartDate_def
        periodEndDate_def tier_db_def recent_earn_def gold_customer_def bronze_criteria_def
        day_def ms_per_day_def)
  have bc: "activeCriteriaOf tier_db bronze = Some bronze_criteria"
    by (simp add: activeCriteriaOf_def tier_db_def bronze_def bronze_criteria_def)
  have n: "[0 ..< nat (consecutive_periods_required bronze_criteria)] = [0, Suc 0]"
    by (simp add: bronze_criteria_def upt_rec)
  have req: "net_earning_required bronze_criteria = 10" by (simp add: bronze_criteria_def)
  have pos: "0 \<le> c_total_points gold_customer" by (simp add: gold_customer_def)
  have b: "\<not> fst (checkTierRetentionEligibility tier_db (day 100) gold_customer bronze)"
    by (simp add: checkTierRetentionEligibility_def bc n p0 p1 req pos)
  have nolower: "\<forall>t' \<in> set (sortedTiers tier_db).
       tier_id t' \<noteq> tier_id gold \<and> hierarchy_level t' < hierarchy_level gold \<longrightarrow>
         \<not> fst (checkTierRetentionEligibility tier_db (day 100) gold_customer t')"
    using s b by (simp add: ts)
  have pts: "c_total_points gold_customer = 40" "points_required gold = 100"
     "hierarchy_level bronze < hierarchy_level gold" "tier_id bronze \<noteq> tier_id gold"
    by (simp_all add: gold_customer_def gold_def bronze_def)
  from no_criteria_threshold_and_base_default[OF h,
      of "day 100" gold_customer "sortedTiers tier_db" bronze bronze] nolower pts h base
  show ?thesis by simp
qed

subsection \<open>Expiry sweep\<close>

lemma updateLoyaltyPointsById_map:
  "distinct (map lp_id ls) \<Longrightarrow>
   updateLoyaltyPointsById i f ls = map (\<lambda>e. if lp_id e = i then f e else e) ls"
proof (induction ls)
  case Nil
  then show ?case by simp
next
  case (Cons a ls)
  show ?case
  proof (cases "lp_id a = i")
    case True
    from Cons.prems have "lp_id a \<notin> lp_id ` set ls" by simp
    with True have "\<forall>e \<in> set ls. lp_id e \<noteq> i" by (metis imageI)
    then have "map (\<lambda>e. if lp_id e = i then f e else e) ls = ls" by (simp add: map_idI)
    with True show ?thesis by simp
  next
    case False
    with Cons show ?thesis by simp
  qed
qed

lemma loyaltyPoints_expire_record:
  "loyaltyPoints (expire_record now d r) =
     updateLoyaltyPointsById (lp_id r) (\<lambda>e. e\<lparr>lp_status := Expired\<rparr>) (loyaltyPoints d)"
  by (simp add: expire_record_def createTransaction_def Let_def)

lemma sweep_ledger:
  "distinct (map lp_id (loyaltyPoints d)) \<Longrightarrow>
   loyaltyPoints (foldl (expire_record now) d rs) =
     map (\<lambda>e. if lp_id e \<in> lp_id ` set rs then e\<lparr>lp_status := Expired\<rparr> else e) (loyaltyPoints d)"
proof (induction rs arbitrary: d)
  case Nil
  then show ?case by (simp add: map_idI)
next
  case (Cons r rs)
  let ?d1 = "expire_record now d r"
  have l1: "loyaltyPoints ?d1 =
      map (\<lambda>e. if lp_id e = lp_id r then e\<lparr>lp_status := Expired\<rparr> else e) (loyaltyPoints d)"
    using Cons.prems by (simp add: loyaltyPoints_expire_record updateLoyaltyPointsById_map)
  have ids: "map lp_id (loyaltyPoints ?d1) = map lp_id (loyaltyPoints d)"
    by (simp add: l1 o_def if_distrib cong: if_cong)
  with Cons.prems have "distinct (map lp_id (loyaltyPoints ?d1))" by simp
  from Cons.IH[OF this] show ?case by (auto simp: l1 o_def)
qed

lemma loyaltyPoints_expireSweep:
  assumes "distinct (map lp_id (loyaltyPoints d))"
  shows "loyaltyPoints (expireSweep now d) =
     map (\<lambda>e. if lp_status e = Active \<and> lp_expiryDate e < now then e\<lparr>lp_status := Expired\<rparr> else e)
       (loyaltyPoints d)"
proof -
  have "(lp_id e \<in> lp_id ` set (expiredPoints now d)) = (lp_status e = Active \<and> lp_expiryDate e < now)"
    if e: "e \<in> set (loyaltyPoints d)" for e
  proof
    assume "lp_id e \<in> lp_id ` set (expiredPoints now d)"
    then obtain x where x: "x \<in> set (loyaltyPoints d)" "lp_status x = Active"
      "lp_expiryDate x < now" "lp_id x = lp_id e" by (auto simp: expiredPoints_def)
    from assms x(1) e x(4) have "x = e" by (meson distinct_map inj_onD)
    with x show "lp_status e = Active \<and> lp_expiryDate e < now" by simp
  next
    assume "lp_status e = Active \<and> lp_expiryDate e < now"
    with e show "lp_id e \<in> lp_id ` set (expiredPoints now d)" by (auto simp: expiredPoints_def)
  qed
  then show ?thesis
    unfolding expireSweep_def sweep_ledger[OF assms] by (intro map_cong) simp_all
qed

lemma expiredPoints_after_sweep:
  assumes "distinct (map lp_id (loyaltyPoints d))"
  shows "expiredPoints now2 (expireSweep now1 d) =
     filter (\<lambda>e. lp_status e = Active \<and> now1 \<le> lp_expiryDate e \<and> lp_expiryDate e < now2)
       (loyaltyPoints d)"
proof -
  let ?g = "\<lambda>e. if lp_status e = Active \<and> lp_expiryDate e < now1 then e\<lparr>lp_status := Expired\<rparr> else e"
  have "expiredPoints now2 (expireSweep now1 d) =
        map ?g (filter ((\<lambda>e. lp_status e = Active \<and> lp_expiryDate e < now2) \<circ> ?g) (loyaltyPoints d))"
    by (simp add: expiredPoints_def loyaltyPoints_expireSweep[OF assms] filter_map)
  also have "filter ((\<lambda>e. lp_status e = Active \<and> lp_expiryDate e < now2) \<circ> ?g) (loyaltyPoints d) =
     filter (\<lambda>e. lp_status e = Active \<and> now1 \<le> lp_expiryDate e \<and> lp_expiryDate e < now2)
       (loyaltyPoints d)"
    by (rule filter_cong) auto
  also have "map ?g \<dots> = \<dots>" by (rule map_idI) auto
  finally show ?thesis .
qed

text \<open>
  Claim C8, amended. After an expiry sweep at \<open>now1\<close>, every entry it selected has status
  \<open>expired\<close>, and a second sweep at \<open>now2\<close> selects exactly the entries that were active
  with \<open>now1 <= expiryDate < now2\<close>: never an entry the first sweep expired. When there
  is no such entry, in particular when both sweeps use the same \<open>now\<close>, the second sweep
  selects nothing and returns the state unchanged: no expire transaction, no debit.
\<close>

theorem expireSweep_second_run:
  assumes ids: "distinct (map lp_id (loyaltyPoints d))"
  shows "(\<forall>e \<in> set (expiredPoints now1 d).
            findLoyaltyPointsById (lp_id e) (loyaltyPoints (expireSweep now1 d)) =
              Some (e\<lparr>lp_status := Expired\<rparr>)) \<and>
         expiredPoints now2 (expireSweep now1 d) =
           filter (\<lambda>e. lp_status e = Active \<and> now1 \<le> lp_expiryDate e \<and> lp_expiryDate e < now2)
             (loyaltyPoints d) \<and>
         set (expiredPoints now2 (expireSweep now1 d)) \<inter> set (expiredPoints now1 d) = {} \<and>
         ((\<forall>e \<in> set (loyaltyPoints d).
              lp_status e = Active \<longrightarrow> \<not> (now1 \<le> lp_expiryDate e \<and> lp_expiryDate e < now2)) \<longrightarrow>
            expiredPoints now2 (expireSweep now1 d) = [] \<and>
            expireSweep now2 (expireSweep now1 d) = expireSweep now1 d) \<and>
         expireSweep now1 (expireSweep now1 d) = expireSweep now1 d"
proof -
  let ?d1 = "expireSweep now1 d"
  note ledger = loyaltyPoints_expireSweep[OF ids, of now1]
  note second = expiredPoints_after_sweep[OF ids]
  have ids1: "distinct (map lp_id (loyaltyPoints ?d1))"
  proof -
    have "map lp_id (loyaltyPoints ?d1) = map lp_id (loyaltyPoints d)"
      by (simp add: ledger o_def if_distrib cong: if_cong)
    with ids show ?thesis by simp
  qed
  have a: "\<forall>e \<in> set (expiredPoints now1 d).
            findLoyaltyPointsById (lp_id e) (loyaltyPoints ?d1) = Some (e\<lparr>lp_status := Expired\<rparr>)"
  proof
    fix e assume e: "e \<in> set (expiredPoints now1 d)"
    then have mem: "e \<in> set (loyaltyPoints d)" and due: "lp_status e = Active \<and> lp_expiryDate e < now1"
      by (auto simp: expiredPoints_def)
    from mem due have "e\<lparr>lp_status := Expired\<rparr> \<in> set (loyaltyPoints ?d1)"
      unfolding ledger by force
    with find_distinct_mem[OF ids1, of "e\<lparr>lp_status := Expired\<rparr>"]
    show "findLoyaltyPointsById (lp_id e) (loyaltyPoints ?d1) = Some (e\<lparr>lp_status := Expired\<rparr>)"
      by (simp add: findLoyaltyPointsById_def)
  qed
  have c: "set (expiredPoints now2 ?d1) \<inter> set (expiredPoints now1 d) = {}"
    unfolding second by (auto simp: expiredPoints_def)
  have e: "expiredPoints now2 ?d1 = [] \<and> expireSweep now2 ?d1 = ?d1"
    if "\<forall>e \<in> set (loyaltyPoints d).
              lp_status e = Active \<longrightarrow> \<not> (now1 \<le> lp_expiryDate e \<and> lp_expiryDate e < now2)"
  proof -
    from that have "expiredPoints now2 ?d1 = []" by (auto simp: second filter_empty_conv)
    then show ?thesis by (simp add: expireSweep_def)
  qed
  have f: "expireSweep now1 ?d1 = ?d1"
  proof -
    have "expiredPoints now1 ?d1 = []" by (auto simp: second filter_empty_conv)
    then show ?thesis by (simp add: expireSweep_def[of now1 ?d1])
  qed
  have b: "expiredPoints now2 ?d1 =
           filter (\<lambda>e. lp_status e = Active \<and> now1 \<le> lp_expiryDate e \<and> lp_expiryDate e < now2)
             (loyaltyPoints d)" by (rule second)
  from a b c e f show ?thesis by blast
qed

theorem expireSweep_second_run_witness:
  "distinct (map lp_id (loyaltyPoints fifo_db)) \<and>
   expiredPoints (day 25) (expireSweep (day 20) fifo_db) = [] \<and>
   expireSweep (day 25) (expireSweep (day 20) fifo_db) = expireSweep (day 20) fifo_db"
proof -
  have h: "distinct (map lp_id (loyaltyPoints fifo_db))"
    by (simp add: fifo_db_def fifo_entry1_def fifo_entry2_def)
  have none: "\<forall>e \<in> set (loyaltyPoints fifo_db).
      lp_status e = Active \<longrightarrow> \<not> (day 20 \<le> lp_expiryDate e \<and> lp_expiryDate e < day 25)"
    by (simp add: fifo_db_def fifo_entry1_def fifo_entry2_def day_def ms_per_day_def)
  from expireSweep_second_run[OF h, of "day 20" "day 25"] none h show ?thesis by blast
qed

text \<open>
  The claim as stated fails when an entry comes due between the two sweeps: with the sweeps
  on day 20 and day 40, the second one finds the entry expiring on day 30, emits a second
  transaction and debits the remaining 100 points. Two full runs of the processor on those
  days commit the same.
\<close>

theorem expireSweep_second_run_counterexample:
  "day 20 \<le> day 40 \<and>
   expiredPoints (day 20) fifo_db = [fifo_entry1] \<and>
   expiredPoints (day 40) (expireSweep (day 20) fifo_db) = [fifo_entry2] \<and>
   length (transactions (expireSweep (day 20) fifo_db)) = 1 \<and>
   length (transactions (expireSweep (day 40) (expireSweep (day 20) fifo_db))) = 2 \<and>
   map c_total_points (customers (expireSweep (day 20) fifo_db)) = [100] \<and>
   map c_total_points (customers (expireSweep (day 40) (expireSweep (day 20) fifo_db))) = [0] \<and>
   processPointsAndTiers (day 20) fifo_db = (expireSweep (day 20) fifo_db, Some []) \<and>
   processPointsAndTiers (day 40) (expireSweep (day 20) fifo_db) =
     (expireSweep (day 40) (expireSweep (day 20) fifo_db), Some [])"
  by (simp add: processPointsAndTiers_def sortedTiers_def bronzeTierOf_def customersToCheck_def
      expireSweep_def expiredPoints_def expire_record_def createTransaction_def
      fifo_db_def fifo_entry1_def fifo_entry2_def bronze_def silver_def gold_def
      day_def ms_per_day_def Let_def)

subsection \<open>Tier processing\<close>

lemma createTransaction_fst:
  "fst (createTransaction t d) =
     d\<lparr>transactions := transactions d @ [t\<lparr>tx_id := freshTxId (transactions d)\<rparr>]\<rparr>"
  by (simp add: createTransaction_def Let_def)

lemma priorityTierOf_cong:
  "priorityCustomers d1 = priorityCustomers d \<Longrightarrow> tiers d1 = tiers d \<Longrightarrow>
   priorityTierOf d1 i = priorityTierOf d i"
  by (simp add: priorityTierOf_def split: option.split)

lemma populatedTier_cong:
  "tiers d1 = tiers d \<Longrightarrow> c_tier c1 = c_tier c \<Longrightarrow> populatedTier d1 c1 = populatedTier d c"
  by (simp add: populatedTier_def split: option.split)

lemma clampToPriority_ge:
  "hierarchy_level pt \<le> hierarchy_level (clampToPriority (Some pt) newTier)"
  by (simp add: clampToPriority_def)

lemma clampToPriority_replaces:
  "hierarchy_level newTier < hierarchy_level pt \<Longrightarrow> clampToPriority (Some pt) newTier = pt"
  by (simp add: clampToPriority_def)

text \<open>What a step writes, read off its outcome.\<close>

lemma evaluateDowngrade_writes:
  "evaluateDowngrade now ts b d c cur pr = (d1, out) \<Longrightarrow>
     (case out of
        Downgraded t \<Rightarrow>
          (\<exists>ct. cur = Some ct \<and> t = clampToPriority pr (scanTiers d now c ct ts b) \<and>
                d1 = applyDowngrade now c ct t pr d)
      | ProtectionEnforced t \<Rightarrow> False
      | _ \<Rightarrow> d1 = d)"
  by (auto simp: evaluateDowngrade_def Let_def split: if_splits option.splits)

lemma process_customer_writes:
  "process_customer now ts b d c = (d1, out) \<Longrightarrow>
     (case out of
        Downgraded t \<Rightarrow>
          (\<exists>ct. populatedTier d c = Some ct \<and>
                t = clampToPriority (priorityTierOf d (c_id c)) (scanTiers d now c ct ts b) \<and>
                d1 = applyDowngrade now c ct t (priorityTierOf d (c_id c)) d)
      | ProtectionEnforced t \<Rightarrow>
          (\<exists>ct. populatedTier d c = Some ct \<and> priorityTierOf d (c_id c) = Some t \<and>
                hierarchy_level ct < hierarchy_level t \<and> d1 = enforceProtection now c ct t d)
      | _ \<Rightarrow> d1 = d)"
  unfolding process_customer_def Let_def
  by (auto split: option.splits if_splits outcome.splits dest!: evaluateDowngrade_writes)


lemma map_c_id_updateCustomerById:
  "(\<And>x. c_id (f x) = c_id x) \<Longrightarrow> map c_id (updateCustomerById i f cs) = map c_id cs"
  by (induction cs) simp_all

lemma find_updateCustomerById:
  "(\<And>x. c_id (f x) = c_id x) \<Longrightarrow>
   findCustomerById j (updateCustomerById i f cs) =
     (if i = j then map_option f (findCustomerById j cs) else findCustomerById j cs)"
  by (induction cs) (auto simp: findCustomerById_def)

lemma enforceProtection_fields:
  "customers (enforceProtection now c ct pt d) =
     updateCustomerById (c_id c) (\<lambda>x. x\<lparr>c_tier := Some (tier_id pt)\<rparr>) (customers d)"
  "\<exists>T. transactions (enforceProtection now c ct pt d) = transactions d @ [T] \<and>
       tx_customer_id T = c_id c \<and> tx_type T = Tier_protection_adjustment"
  "tiers (enforceProtection now c ct pt d) = tiers d"
  "priorityCustomers (enforceProtection now c ct pt d) = priorityCustomers d"
  by (simp_all add: enforceProtection_def createTransaction_fst setCustomerTier_def)

lemma applyDowngrade_fields:
  "customers (applyDowngrade now c ct t pr d) =
     updateCustomerById (c_id c) (\<lambda>x. x\<lparr>c_tier := Some (tier_id t)\<rparr>) (customers d)"
  "\<exists>T. transactions (applyDowngrade now c ct t pr d) = transactions d @ [T] \<and>
       tx_customer_id T = c_id c \<and> tx_type T = Tier_downgrade"
  "tiers (applyDowngrade now c ct t pr d) = tiers d"
  "priorityCustomers (applyDowngrade now c ct t pr d) = priorityCustomers d"
  by (simp_all add: applyDowngrade_def createTransaction_fst setCustomerTier_def)

lemma process_customer_frame:
  assumes "process_customer now ts b d c = (d1, out)"
  shows "tiers d1 = tiers d \<and> priorityCustomers d1 = priorityCustomers d \<and>
         map c_id (customers d1) = map c_id (customers d) \<and>
         (j \<noteq> c_id c \<longrightarrow>
            findCustomerById j (customers d1) = findCustomerById j (customers d) \<and>
            filter (\<lambda>t. tx_customer_id t = j \<and> P t) (transactions d1) =
              filter (\<lambda>t. tx_customer_id t = j \<and> P t) (transactions d))"
proof (cases out)
  case (ProtectionEnforced t)
  with process_customer_writes[OF assms] obtain ct where
    d1: "d1 = enforceProtection now c ct t d" by auto
  from enforceProtection_fields(2)[of now c ct t d] obtain T where
    "transactions d1 = transactions d @ [T]" "tx_customer_id T = c_id c" by (auto simp: d1)
  then show ?thesis
    by (auto simp: d1 enforceProtection_fields map_c_id_updateCustomerById find_updateCustomerById)
next
  case (Downgraded t)
  with process_customer_writes[OF assms] obtain ct where
    d1: "d1 = applyDowngrade now c ct t (priorityTierOf d (c_id c)) d" by auto
  from applyDowngrade_fields(2)[of now c ct t "priorityTierOf d (c_id c)" d] obtain T where
    "transactions d1 = transactions d @ [T]" "tx_customer_id T = c_id c" by (auto simp: d1)
  then show ?thesis
    by (auto simp: d1 applyDowngrade_fields map_c_id_updateCustomerById find_updateCustomerById)
qed (use process_customer_writes[OF assms] in auto)

lemma process_customers_frame:
  "process_customers now ts b cs d0 log0 = (d', log') \<Longrightarrow>
     tiers d' = tiers d0 \<and> priorityCustomers d' = priorityCustomers d0 \<and> set log0 \<subseteq> set log'"
proof (induction cs arbitrary: d0 log0)
  case Nil
  then show ?case by simp
next
  case (Cons y cs)
  obtain d1 out where step: "process_customer now ts b d0 y = (d1, out)" by force
  with Cons.prems have rest:
    "process_customers now ts b cs d1 (log0 @ [(c_id y, out)]) = (d', log')" by simp
  from Cons.IH[OF rest] process_customer_frame[OF step, of 0 "\<lambda>t. True"] show ?case by auto
qed

lemma process_customers_log:
  "process_customers now ts b cs d0 log0 = (d', log') \<Longrightarrow> (i, out) \<in> set log' \<Longrightarrow>
     (i, out) \<in> set log0 \<or>
     (\<exists>c \<in> set cs. \<exists>d1. c_id c = i \<and> tiers d1 = tiers d0 \<and>
         priorityCustomers d1 = priorityCustomers d0 \<and>
         snd (process_customer now ts b d1 c) = out)"
proof (induction cs arbitrary: d0 log0)
  case Nil
  then show ?case by simp
next
  case (Cons y cs)
  obtain d1 o1 where step: "process_customer now ts b d0 y = (d1, o1)" by force
  with Cons.prems have rest:
    "process_customers now ts b cs d1 (log0 @ [(c_id y, o1)]) = (d', log')" by simp
  from process_customer_frame[OF step, of 0 "\<lambda>t. True"]
  have fr: "tiers d1 = tiers d0" "priorityCustomers d1 = priorityCustomers d0" by simp_all
  from Cons.IH[OF rest Cons.prems(2)]
  consider "(i, out) \<in> set log0" | "(i, out) = (c_id y, o1)"
    | c d2 where "c \<in> set cs" "c_id c = i" "tiers d2 = tiers d1"
        "priorityCustomers d2 = priorityCustomers d1" "snd (process_customer now ts b d2 c) = out"
    by auto
  then show ?case
  proof cases
    case 1
    then show ?thesis by simp
  next
    case 2
    with step have "c_id y = i" "snd (process_customer now ts b d0 y) = out" by simp_all
    then show ?thesis by (intro disjI2 bexI[of _ y] exI[of _ d0]) simp_all
  next
    case 3
    with fr show ?thesis by (intro disjI2 bexI[of _ c] exI[of _ d2]) simp_all
  qed
qed

lemma expire_record_frame:
  "tiers (expire_record now d r) = tiers d \<and>
   priorityCustomers (expire_record now d r) = priorityCustomers d \<and>
   map c_id (customers (expire_record now d r)) = map c_id (customers d) \<and>
   map_option c_tier (findCustomerById j (customers (expire_record now d r))) =
     map_option c_tier (findCustomerById j (customers d)) \<and>
   filter (\<lambda>t. tx_customer_id t = j \<and> tx_type t = Tier_protection_adjustment)
       (transactions (expire_record now d r)) =
     filter (\<lambda>t. tx_customer_id t = j \<and> tx_type t = Tier_protection_adjustment) (transactions d)"
  by (simp add: expire_record_def createTransaction_def Let_def map_c_id_updateCustomerById
      find_updateCustomerById option.map_comp o_def)

lemma expireSweep_frame:
  "tiers (expireSweep now d) = tiers d \<and>
   priorityCustomers (expireSweep now d) = priorityCustomers d \<and>
   map c_id (customers (expireSweep now d)) = map c_id (customers d) \<and>
   map_option c_tier (findCustomerById j (customers (expireSweep now d))) =
     map_option c_tier (findCustomerById j (customers d)) \<and>
   filter (\<lambda>t. tx_customer_id t = j \<and> tx_type t = Tier_protection_adjustment)
       (transactions (expireSweep now d)) =
     filter (\<lambda>t. tx_customer_id t = j \<and> tx_type t = Tier_protection_adjustment) (transactions d)"
proof -
  have "tiers (foldl (expire_record now) d rs) = tiers d \<and>
   priorityCustomers (foldl (expire_record now) d rs) = priorityCustomers d \<and>
   map c_id (customers (foldl (expire_record now) d rs)) = map c_id (customers d) \<and>
   map_option c_tier (findCustomerById j (customers (foldl (expire_record now) d rs))) =
     map_option c_tier (findCustomerById j (customers d)) \<and>
   filter (\<lambda>t. tx_customer_id t = j \<and> tx_type t = Tier_protection_adjustment)
       (transactions (foldl (expire_record now) d rs)) =
     filter (\<lambda>t. tx_customer_id t = j \<and> tx_type t = Tier_protection_adjustment) (transactions d)"
    for rs
  proof (induction rs arbitrary: d)
    case Nil
    then show ?case by simp
  next
    case (Cons r rs)
    from Cons.IH[of "expire_record now d r"] expire_record_frame[of now d r j]
    show ?case by simp
  qed
  then show ?thesis by (simp add: expireSweep_def)
qed

text \<open>
  Claim C4. For a customer whose active priority record resolves to the guaranteed minimum
  tier \<open>pt\<close>: every downgrade that a run of \<open>processPointsAndTiers\<close> logs for the customer
  has a target at or above the level of \<open>pt\<close>. A step of the processor for that customer
  either leaves the state alone, or enforces \<open>pt\<close>, or writes a downgrade target at or above
  the level of \<open>pt\<close>; a scanned target below \<open>pt\<close> is replaced by \<open>pt\<close> before the write.
\<close>

theorem downgrade_never_below_priority_minimum:
  assumes pr: "priorityTierOf d i = Some pt"
  shows "(processPointsAndTiers now d = (d', Some log) \<and> (i, Downgraded t) \<in> set log \<longrightarrow>
            hierarchy_level pt \<le> hierarchy_level t) \<and>
         (c_id c = i \<longrightarrow>
            (case process_customer now ts b d c of
               (d1, Downgraded t1) \<Rightarrow>
                 hierarchy_level pt \<le> hierarchy_level t1 \<and>
                 customers d1 =
                   updateCustomerById i (\<lambda>x. x\<lparr>c_tier := Some (tier_id t1)\<rparr>) (customers d)
             | (d1, ProtectionEnforced t1) \<Rightarrow>
                 t1 = pt \<and>
                 customers d1 =
                   updateCustomerById i (\<lambda>x. x\<lparr>c_tier := Some (tier_id pt)\<rparr>) (customers d)
             | (d1, _) \<Rightarrow> d1 = d)) \<and>
         (hierarchy_level scanned < hierarchy_level pt \<longrightarrow> clampToPriority (Some pt) scanned = pt) \<and>
         hierarchy_level pt \<le> hierarchy_level (clampToPriority (Some pt) scanned)"
proof -
  have step: "hierarchy_level pt \<le> hierarchy_level t1"
    if p1: "priorityTierOf d0 (c_id c0) = Some pt"
      and p2: "snd (process_customer now ts0 b0 d0 c0) = Downgraded t1" for d0 c0 ts0 b0 t1
  proof -
    obtain d1 where "process_customer now ts0 b0 d0 c0 = (d1, Downgraded t1)"
      using p2 by (metis prod.collapse)
    from process_customer_writes[OF this] p1 show ?thesis
      by (auto simp: clampToPriority_ge)
  qed
  have run: "hierarchy_level pt \<le> hierarchy_level t"
    if r: "processPointsAndTiers now d = (d', Some log)" and entry: "(i, Downgraded t) \<in> set log"
  proof -
    let ?d1 = "expireSweep now d"
    from r obtain b0 where
      loop: "process_customers now (sortedTiers ?d1) b0 (customersToCheck b0 ?d1) ?d1 [] = (d', log)"
      by (auto simp: processPointsAndTiers_def Let_def split: option.splits prod.splits)
    from process_customers_log[OF loop entry] obtain c0 d2 where
      c0: "c_id c0 = i" "tiers d2 = tiers ?d1" "priorityCustomers d2 = priorityCustomers ?d1"
        "snd (process_customer now (sortedTiers ?d1) b0 d2 c0) = Downgraded t" by auto
    from c0(2,3) expireSweep_frame[of now d 0] have "priorityTierOf d2 i = priorityTierOf d i"
      by (intro priorityTierOf_cong) simp_all
    with pr c0(1) have "priorityTierOf d2 (c_id c0) = Some pt" by simp
    from step[OF this c0(4)] show ?thesis .
  qed
  have local: "case process_customer now ts b d c of
               (d1, Downgraded t1) \<Rightarrow>
                 hierarchy_level pt \<le> hierarchy_level t1 \<and>
                 customers d1 =
                   updateCustomerById i (\<lambda>x. x\<lparr>c_tier := Some (tier_id t1)\<rparr>) (customers d)
             | (d1, ProtectionEnforced t1) \<Rightarrow>
                 t1 = pt \<and>
                 customers d1 =
                   updateCustomerById i (\<lambda>x. x\<lparr>c_tier := Some (tier_id pt)\<rparr>) (customers d)
             | (d1, _) \<Rightarrow> d1 = d" if ci: "c_id c = i"
  proof -
    obtain d1 out where s: "process_customer now ts b d c = (d1, out)" by force
    from process_customer_writes[OF s] pr ci show ?thesis
      by (cases out)
         (auto simp: s clampToPriority_ge applyDowngrade_fields enforceProtection_fields)
  qed
  from run local clampToPriority_replaces[of scanned pt] clampToPriority_ge[of pt scanned]
  show ?thesis by blast
qed


theorem downgrade_never_below_priority_minimum_witness:
  "priorityTierOf protect_db 10 = Some silver \<and>
   snd (processPointsAndTiers (day 100) protect_db) =
     Some [(9, ProtectionEnforced gold), (10, Downgraded silver)] \<and>
   hierarchy_level silver \<le> hierarchy_level silver"
proof -
  have h: "priorityTierOf protect_db 10 = Some silver" by code_simp
  have log: "snd (processPointsAndTiers (day 100) protect_db) =
     Some [(9, ProtectionEnforced gold), (10, Downgraded silver)]" by code_simp
  then have run: "processPointsAndTiers (day 100) protect_db =
     (fst (processPointsAndTiers (day 100) protect_db),
      Some [(9, ProtectionEnforced gold), (10, Downgraded silver)])"
    by (metis prod.collapse)
  from downgrade_never_below_priority_minimum[OF h, of "day 100"
      "fst (processPointsAndTiers (day 100) protect_db)"
      "[(9, ProtectionEnforced gold), (10, Downgraded silver)]" silver] run h log
  show ?thesis by simp
qed

lemma process_customers_other:
  "process_customers now ts b cs d0 log0 = (d', log') \<Longrightarrow> i \<notin> c_id ` set cs \<Longrightarrow>
     findCustomerById i (customers d') = findCustomerById i (customers d0) \<and>
     filter (\<lambda>t. tx_customer_id t = i \<and> P t) (transactions d') =
       filter (\<lambda>t. tx_customer_id t = i \<and> P t) (transactions d0)"
proof (induction cs arbitrary: d0 log0)
  case Nil
  then show ?case by simp
next
  case (Cons y cs)
  obtain d1 o1 where step: "process_customer now ts b d0 y = (d1, o1)" by force
  with Cons.prems have rest:
    "process_customers now ts b cs d1 (log0 @ [(c_id y, o1)]) = (d', log')" by simp
  from Cons.prems(2) have ne: "i \<noteq> c_id y" and notin: "i \<notin> c_id ` set cs" by auto
  from Cons.IH[OF rest notin] process_customer_frame[OF step, of i P] ne show ?case by simp
qed

lemma process_customers_protect:
  assumes "process_customers now ts b cs d0 log0 = (d', log')"
    and "distinct (map c_id cs)" and "c \<in> set cs"
    and "populatedTier d0 c = Some ct" and "priorityTierOf d0 (c_id c) = Some pt"
    and "hierarchy_level ct < hierarchy_level pt"
    and "findCustomerById (c_id c) (customers d0) = Some c0"
  shows "findCustomerById (c_id c) (customers d') = Some (c0\<lparr>c_tier := Some (tier_id pt)\<rparr>) \<and>
         length (filter (\<lambda>t. tx_customer_id t = c_id c \<and> tx_type t = Tier_protection_adjustment)
                   (transactions d')) =
           Suc (length (filter (\<lambda>t. tx_customer_id t = c_id c \<and> tx_type t = Tier_protection_adjustment)
                          (transactions d0))) \<and>
         (c_id c, ProtectionEnforced pt) \<in> set log'"
  using assms
proof (induction cs arbitrary: d0 log0)
  case Nil
  then show ?case by simp
next
  case (Cons y cs)
  let ?P = "\<lambda>t. tx_type t = Tier_protection_adjustment"
  obtain d1 o1 where step: "process_customer now ts b d0 y = (d1, o1)" by force
  with Cons.prems(1) have rest:
    "process_customers now ts b cs d1 (log0 @ [(c_id y, o1)]) = (d', log')" by simp
  show ?case
  proof (cases "c = y")
    case True
    with Cons.prems(4,5,6) have s: "process_customer now ts b d0 c =
        (enforceProtection now c ct pt d0, ProtectionEnforced pt)"
      by (simp add: process_customer_def Let_def)
    with step True have d1: "d1 = enforceProtection now c ct pt d0"
      and o1: "o1 = ProtectionEnforced pt" by simp_all
    from Cons.prems(2) True have notin: "c_id c \<notin> c_id ` set cs" by auto
    note other = process_customers_other[OF rest notin, of ?P]
    from enforceProtection_fields(2)[of now c ct pt d0] obtain T where
      T: "transactions d1 = transactions d0 @ [T]" "tx_customer_id T = c_id c"
        "tx_type T = Tier_protection_adjustment" by (auto simp: d1)
    have cust: "findCustomerById (c_id c) (customers d1) = Some (c0\<lparr>c_tier := Some (tier_id pt)\<rparr>)"
      using Cons.prems(7) by (simp add: d1 enforceProtection_fields find_updateCustomerById)
    have "(c_id c, ProtectionEnforced pt) \<in> set (log0 @ [(c_id y, o1)])"
      using True o1 by simp
    with process_customers_frame[OF rest] have "(c_id c, ProtectionEnforced pt) \<in> set log'"
      by blast
    with other cust T show ?thesis by simp
  next
    case False
    with Cons.prems(3) have mem: "c \<in> set cs" by simp
    from Cons.prems(2) have "c_id y \<notin> c_id ` set cs" by simp
    with mem have ne: "c_id c \<noteq> c_id y" by (metis imageI)
    from Cons.prems(2) have dist: "distinct (map c_id cs)" by simp
    note fr = process_customer_frame[OF step, of "c_id c" ?P]
    from fr Cons.prems(4) have pt1: "populatedTier d1 c = Some ct"
      by (simp add: populatedTier_cong[of d1 d0 c c])
    from fr Cons.prems(5) have pr1: "priorityTierOf d1 (c_id c) = Some pt"
      by (simp add: priorityTierOf_cong[of d1 d0])
    from fr ne Cons.prems(7) have c1: "findCustomerById (c_id c) (customers d1) = Some c0"
      by simp
    from Cons.IH[OF rest dist mem pt1 pr1 Cons.prems(6) c1] fr ne show ?thesis by simp
  qed
qed

text \<open>
  Claim C1, amended. The processor scans only the customers whose tier is not the base tier.
  For such a customer with an active priority record whose guaranteed minimum tier has a
  higher level than the current tier, a run sets the tier to the guaranteed minimum, creates
  exactly one \<open>tier_protection_adjustment\<close> transaction for the customer, and logs the
  enforcement, whatever the retention evaluation would say. Customer ids are distinct.
\<close>

theorem protection_restores_minimum_above_base:
  assumes run: "processPointsAndTiers now d = (d', Some log)"
    and ids: "distinct (map c_id (customers d))"
    and cust: "findCustomerById i (customers d) = Some c"
    and cur: "populatedTier d c = Some ct"
    and pr: "priorityTierOf d i = Some pt"
    and below: "hierarchy_level ct < hierarchy_level pt"
    and notbase: "\<forall>b. bronzeTierOf (sortedTiers d) = Some b \<longrightarrow> c_tier c \<noteq> Some (tier_id b)"
  shows "map_option c_tier (findCustomerById i (customers d')) = Some (Some (tier_id pt)) \<and>
         length (filter (\<lambda>t. tx_customer_id t = i \<and> tx_type t = Tier_protection_adjustment)
                   (transactions d')) =
           Suc (length (filter (\<lambda>t. tx_customer_id t = i \<and> tx_type t = Tier_protection_adjustment)
                          (transactions d))) \<and>
         (i, ProtectionEnforced pt) \<in> set log"
proof -
  let ?d1 = "expireSweep now d"
  note sw = expireSweep_frame[of now d i]
  have ts: "sortedTiers ?d1 = sortedTiers d" using sw by (simp add: sortedTiers_def)
  from run obtain b where
    b: "bronzeTierOf (sortedTiers d) = Some b" and
    loop: "process_customers now (sortedTiers d) b (customersToCheck b ?d1) ?d1 [] = (d', log)"
    by (auto simp: processPointsAndTiers_def Let_def ts split: option.splits prod.splits)
  from sw cust obtain c1 where c1: "findCustomerById i (customers ?d1) = Some c1"
    and tier1: "c_tier c1 = c_tier c" by (cases "findCustomerById i (customers ?d1)") auto
  from c1 have id1: "c_id c1 = i" by (rule findCustomerById_id)
  from c1 have mem1: "c1 \<in> set (customers ?d1)"
    by (auto simp: findCustomerById_def find_Some_iff)
  from notbase b tier1 have "c_tier c1 \<noteq> Some (tier_id b)" by simp
  with mem1 have mem: "c1 \<in> set (customersToCheck b ?d1)" by (simp add: customersToCheck_def)
  from ids sw have "distinct (map c_id (customersToCheck b ?d1))"
    by (simp add: customersToCheck_def distinct_map_filter)
  moreover from cur sw tier1 have "populatedTier ?d1 c1 = Some ct"
    by (simp add: populatedTier_cong[of ?d1 d c1 c])
  moreover from pr sw id1 have "priorityTierOf ?d1 (c_id c1) = Some pt"
    by (simp add: priorityTierOf_cong[of ?d1 d])
  moreover from c1 id1 have "findCustomerById (c_id c1) (customers ?d1) = Some c1" by simp
  ultimately have res:
    "findCustomerById (c_id c1) (customers d') = Some (c1\<lparr>c_tier := Some (tier_id pt)\<rparr>) \<and>
     length (filter (\<lambda>t. tx_customer_id t = c_id c1 \<and> tx_type t = Tier_protection_adjustment)
               (transactions d')) =
       Suc (length (filter (\<lambda>t. tx_customer_id t = c_id c1 \<and> tx_type t = Tier_protection_adjustment)
                      (transactions ?d1))) \<and>
     (c_id c1, ProtectionEnforced pt) \<in> set log"
    using process_customers_protect[OF loop _ mem _ _ below] by blast
  with sw id1 show ?thesis by simp
qed

theorem protection_restores_minimum_witness:
  "distinct (map c_id (customers protect_db)) \<and>
   findCustomerById 9 (customers protect_db) = Some customer9 \<and>
   populatedTier protect_db customer9 = Some silver \<and>
   priorityTierOf protect_db 9 = Some gold \<and>
   hierarchy_level silver < hierarchy_level gold \<and>
   map_option c_tier
     (findCustomerById 9 (customers (fst (processPointsAndTiers (day 100) protect_db))))
     = Some (Some (tier_id gold)) \<and>
   length (filter (\<lambda>t. tx_customer_id t = 9 \<and> tx_type t = Tier_protection_adjustment)
             (transactions (fst (processPointsAndTiers (day 100) protect_db)))) = 1"
proof -
  have log: "snd (processPointsAndTiers (day 100) protect_db) =
     Some [(9, ProtectionEnforced gold), (10, Downgraded silver)]" by code_simp
  then have run: "processPointsAndTiers (day 100) protect_db =
     (fst (processPointsAndTiers (day 100) protect_db),
      Some [(9, ProtectionEnforced gold), (10, Downgraded silver)])"
    by (metis prod.collapse)
  have ids: "distinct (map c_id (customers protect_db))" by code_simp
  have cust: "findCustomerById 9 (customers protect_db) = Some customer9" by code_simp
  have cur: "populatedTier protect_db customer9 = Some silver" by code_simp
  have pr: "priorityTierOf protect_db 9 = Some gold" by code_simp
  have below: "hierarchy_level silver < hierarchy_level gold" by code_simp
  have base: "bronzeTierOf (sortedTiers protect_db) = Some bronze" by code_simp
  have "c_tier customer9 \<noteq> Some (tier_id bronze)" by code_simp
  with base have notbase:
    "\<forall>b. bronzeTierOf (sortedTiers protect_db) = Some b \<longrightarrow> c_tier customer9 \<noteq> Some (tier_id b)"
    by simp
  have before: "filter (\<lambda>t. tx_customer_id t = 9 \<and> tx_type t = Tier_protection_adjustment)
                  (transactions protect_db) = []" by (simp add: protect_db_def)
  from protection_restores_minimum_above_base[OF run ids cust cur pr below notbase]
    ids cust cur pr below before
  show ?thesis by simp
qed

text \<open>
  The claim as stated fails for its own example: a customer at Bronze (the base tier, level 0)
  with guaranteed minimum Silver (level 1) is not among the customers the run scans; the run
  changes nothing and creates no transaction.
\<close>

theorem protection_skips_base_tier_counterexample:
  "findCustomerById 8 (customers bronze_protected_db) = Some customer8 \<and>
   populatedTier bronze_protected_db customer8 = Some bronze \<and>
   priorityTierOf bronze_protected_db 8 = Some silver \<and>
   hierarchy_level bronze = 0 \<and> hierarchy_level silver = 1 \<and>
   processPointsAndTiers (day 100) bronze_protected_db = (bronze_protected_db, Some []) \<and>
   map c_tier (customers (fst (processPointsAndTiers (day 100) bronze_protected_db)))
     = [Some (tier_id bronze)] \<and>
   transactions (fst (processPointsAndTiers (day 100) bronze_protected_db)) = []"
  by code_simp

text \<open>
  In general a customer at the base tier is outside the scan: the run leaves the customer's
  tier as it is, creates no \<open>tier_protection_adjustment\<close> transaction for the customer
  and logs no outcome for the customer. (The expiry sweep of the same run may still debit
  the customer's balance.)
\<close>

lemma base_tier_customer_not_scanned:
  assumes run: "processPointsAndTiers now d = (d', Some log)"
    and ids: "distinct (map c_id (customers d))"
    and cust: "findCustomerById i (customers d) = Some c"
    and base: "bronzeTierOf (sortedTiers d) = Some b"
    and at_base: "c_tier c = Some (tier_id b)"
  shows "map_option c_tier (findCustomerById i (customers d')) = Some (c_tier c) \<and>
         filter (\<lambda>t. tx_customer_id t = i \<and> tx_type t = Tier_protection_adjustment)
           (transactions d') =
         filter (\<lambda>t. tx_customer_id t = i \<and> tx_type t = Tier_protection_adjustment)
           (transactions d) \<and>
         i \<notin> fst ` set log"
proof -
  let ?d1 = "expireSweep now d"
  let ?P = "\<lambda>t. tx_type t = Tier_protection_adjustment"
  note sw = expireSweep_frame[of now d i]
  have ts: "sortedTiers ?d1 = sortedTiers d" using sw by (simp add: sortedTiers_def)
  from run base have
    loop: "process_customers now (sortedTiers d) b (customersToCheck b ?d1) ?d1 [] = (d', log)"
    by (auto simp: processPointsAndTiers_def Let_def ts split: option.splits prod.splits)
  from sw cust obtain c1 where c1: "findCustomerById i (customers ?d1) = Some c1"
    and tier1: "c_tier c1 = c_tier c" by (cases "findCustomerById i (customers ?d1)") auto
  from c1 have id1: "c_id c1 = i" by (rule findCustomerById_id)
  from c1 have mem1: "c1 \<in> set (customers ?d1)"
    by (auto simp: findCustomerById_def find_Some_iff)
  from ids sw have dist: "distinct (map c_id (customers ?d1))" by simp
  have notin: "i \<notin> c_id ` set (customersToCheck b ?d1)"
  proof
    assume "i \<in> c_id ` set (customersToCheck b ?d1)"
    then obtain x where x: "x \<in> set (customers ?d1)" "c_tier x \<noteq> Some (tier_id b)" "c_id x = i"
      by (auto simp: customersToCheck_def)
    from dist x(1) mem1 x(3) id1 have "x = c1" by (metis distinct_map inj_onD)
    with x(2) tier1 at_base show False by simp
  qed
  note other = process_customers_other[OF loop notin, of ?P]
  have nolog: "i \<notin> fst ` set log"
  proof
    assume "i \<in> fst ` set log"
    then obtain out where "(i, out) \<in> set log" by force
    from process_customers_log[OF loop this] notin show False by auto
  qed
  from other sw cust c1 tier1 nolog show ?thesis by simp
qed

subsection \<open>Bulk validation\<close>

lemma validate_row_valid:
  "(\<exists>row. validate_row e d index rawRow = Inr row) = row_valid e d rawRow"
  by (auto simp: validate_row_def row_valid_def missingColumns_def Let_def
      split: option.splits if_splits)

lemma validate_row_names_row:
  "validate_row e d index rawRow = Inl err \<Longrightarrow>
     prefix (''Row '' @ show_nat (index + 2) @ '': '') err"
  by (auto simp: validate_row_def rowError_def Let_def split: option.splits if_splits)

lemma validate_rows_errors:
  "fst (validate_rows e d index rows errs enriched) = errs @ rowErrorsFrom e d index rows"
  by (induction rows arbitrary: index errs enriched) (auto split: sum.splits)

lemma rowErrorsFrom_length:
  "length (rowErrorsFrom e d index rows) = length (filter (\<lambda>row. \<not> row_valid e d row) rows)"
proof (induction rows arbitrary: index)
  case Nil
  then show ?case by simp
next
  case (Cons row rows)
  show ?case
  proof (cases "validate_row e d index row")
    case (Inl err)
    with validate_row_valid[of e d index row] have "\<not> row_valid e d row" by auto
    with Inl Cons.IH[of "index + 1"] show ?thesis by simp
  next
    case (Inr r)
    with validate_row_valid[of e d index row] have "row_valid e d row" by auto
    with Inr Cons.IH[of "index + 1"] show ?thesis by simp
  qed
qed

lemma rowErrorsFrom_complete:
  "k < length rows \<Longrightarrow> \<not> row_valid e d (rows ! k) \<Longrightarrow>
     \<exists>err \<in> set (rowErrorsFrom e d index rows).
        prefix (''Row '' @ show_nat (index + k + 2) @ '': '') err"
proof (induction rows arbitrary: index k)
  case Nil
  then show ?case by simp
next
  case (Cons row rows)
  show ?case
  proof (cases k)
    case 0
    with Cons.prems validate_row_valid[of e d index row]
    obtain err where err: "validate_row e d index row = Inl err"
      by (cases "validate_row e d index row") auto
    from validate_row_names_row[OF err] err 0 show ?thesis by auto
  next
    case (Suc j)
    with Cons.prems have "j < length rows" "\<not> row_valid e d (rows ! j)" by simp_all
    from Cons.IH[OF this, of "index + 1"] Suc show ?thesis by auto
  qed
qed

lemma rowErrorsFrom_sound:
  "err \<in> set (rowErrorsFrom e d index rows) \<Longrightarrow>
     \<exists>k < length rows. \<not> row_valid e d (rows ! k) \<and>
        prefix (''Row '' @ show_nat (index + k + 2) @ '': '') err"
proof (induction rows arbitrary: index)
  case Nil
  then show ?case by simp
next
  case (Cons row rows)
  from Cons.prems consider (head) "validate_row e d index row = Inl err"
    | (tail) "err \<in> set (rowErrorsFrom e d (index + 1) rows)"
    by (auto split: sum.splits)
  then show ?case
  proof cases
    case head
    with validate_row_valid[of e d index row] have "\<not> row_valid e d row" by auto
    with validate_row_names_row[OF head] show ?thesis by (intro exI[of _ 0]) simp
  next
    case tail
    from Cons.IH[OF tail] obtain k where "k < length rows" "\<not> row_valid e d (rows ! k)"
      "prefix (''Row '' @ show_nat (index + 1 + k + 2) @ '': '') err" by blast
    then show ?thesis by (intro exI[of _ "Suc k"]) simp
  qed
qed

text \<open>
  Claim C5. \<open>addPointsBulk\<close> validates every row before it writes anything. When an
  uploaded sheet holds at least one invalid row, the batch is rejected with status 400, the
  state is the one the call started from (no transaction, ledger entry or balance is
  written), and the answer lists one message per invalid row, each starting with the row's
  number in the sheet (its index plus two, the header being row 1).
\<close>

theorem addPointsBulk_rejects_invalid_batch:
  assumes upload: "bulk_file req = Some (Sheet rows)"
    and by_whom: "normalizeString (bulk_requested_by req) \<noteq> []"
    and k: "k < length rows"
    and bad: "\<not> row_valid e d (rows ! k)"
  shows "\<exists>errs.
           addPointsBulk e now d req =
             (d, response_handler 400 ''Bulk upload validation failed''
                   (ErrorData (join ''; '' errs))) \<and>
           length errs = length (filter (\<lambda>row. \<not> row_valid e d row) rows) \<and>
           (\<forall>j < length rows. \<not> row_valid e d (rows ! j) \<longrightarrow>
              (\<exists>err \<in> set errs. prefix (''Row '' @ show_nat (j + 2) @ '': '') err)) \<and>
           (\<forall>err \<in> set errs. \<exists>j < length rows.
              \<not> row_valid e d (rows ! j) \<and> prefix (''Row '' @ show_nat (j + 2) @ '': '') err)"
proof -
  let ?errs = "rowErrorsFrom e d 0 rows"
  from k have ne: "rows \<noteq> []" by auto
  from rowErrorsFrom_complete[OF k bad, of 0] have nonempty: "?errs \<noteq> []" by auto
  obtain errs enriched where v: "validate_rows e d 0 rows [] [] = (errs, enriched)" by force
  with validate_rows_errors[of e d 0 rows "[]" "[]"] have errs: "errs = ?errs" by simp
  have "addPointsBulk e now d req =
          (d, response_handler 400 ''Bulk upload validation failed''
                (ErrorData (join ''; '' ?errs)))"
    using upload by_whom ne v nonempty by (simp add: addPointsBulk_def Let_def errs)
  moreover have "length ?errs = length (filter (\<lambda>row. \<not> row_valid e d row) rows)"
    by (rule rowErrorsFrom_length)
  moreover have "\<forall>j < length rows. \<not> row_valid e d (rows ! j) \<longrightarrow>
              (\<exists>err \<in> set ?errs. prefix (''Row '' @ show_nat (j + 2) @ '': '') err)"
    using rowErrorsFrom_complete[of _ rows e d 0] by simp
  moreover have "\<forall>err \<in> set ?errs. \<exists>j < length rows.
              \<not> row_valid e d (rows ! j) \<and> prefix (''Row '' @ show_nat (j + 2) @ '': '') err"
    using rowErrorsFrom_sound[of _ e d 0 rows] by simp
  ultimately show ?thesis by blast
qed

theorem addPointsBulk_rejects_invalid_batch_witness:
  "bulk_file bulk_upload = Some (Sheet bulk_rows) \<and>
   normalizeString (bulk_requested_by bulk_upload) \<noteq> [] \<and>
   (1::nat) < length bulk_rows \<and> \<not> row_valid plain_env grant_db (bulk_rows ! 1) \<and>
   fst (addPointsBulk plain_env (day 6) grant_db bulk_upload) = grant_db \<and>
   status_code (snd (addPointsBulk plain_env (day 6) grant_db bulk_upload)) = 400 \<and>
   response_data (snd (addPointsBulk plain_env (day 6) grant_db bulk_upload)) =
     ErrorData ''Row 3: points must be positive; Row 4: Customer CUST000999 not found''"
proof -
  have h1: "bulk_file bulk_upload = Some (Sheet bulk_rows)" by (simp add: bulk_upload_def)
  have h2: "normalizeString (bulk_requested_by bulk_upload) \<noteq> []" by code_simp
  have h3: "(1::nat) < length bulk_rows" by (simp add: bulk_rows_def)
  have h4: "\<not> row_valid plain_env grant_db (bulk_rows ! 1)" by code_simp
  have msg: "response_data (snd (addPointsBulk plain_env (day 6) grant_db bulk_upload)) =
     ErrorData ''Row 3: points must be positive; Row 4: Customer CUST000999 not found''"
    by code_simp
  from addPointsBulk_rejects_invalid_batch[OF h1 h2 h3 h4, of "day 6"]
  have "fst (addPointsBulk plain_env (day 6) grant_db bulk_upload) = grant_db \<and>
        status_code (snd (addPointsBulk plain_env (day 6) grant_db bulk_upload)) = 400"
    by (auto simp: response_handler_def)
  with h1 h2 h3 h4 msg show ?thesis by simp
qed

subsection \<open>Manual grants and reductions\<close>

lemma customers_redeemPointsFIFO:
  "customers (fst (redeemPointsFIFO now d cid n)) = customers d"
  by (simp add: redeemPointsFIFO_def Let_def split: prod.splits)

lemma customers_tryCreateLoyaltyPoints:
  "customers (tryCreateLoyaltyPoints e now c p txid meta d) = customers d"
  by (simp add: tryCreateLoyaltyPoints_def Let_def split: option.splits)

lemma find_tryCheckAndUpgradeTier:
  "findCustomerById j (customers (tryCheckAndUpgradeTier e i d)) = Some x \<Longrightarrow>
     \<exists>y. findCustomerById j (customers d) = Some y \<and> x\<lparr>c_tier := c_tier y\<rparr> = y"
  by (auto simp: tryCheckAndUpgradeTier_def applyTierCheck_def find_updateCustomerById
      split: option.splits if_splits)

lemma addPointsIndividual_created:
  assumes add: "addPointsIndividual e now d req = (d1, r1)" and ok: "status_code r1 = 201"
    and c: "findCustomerById (add_customer_id req) (customers d) = Some c"
  shows "\<exists>criteria n rule newTransaction.
           resolvePointCriteria e d (Some (add_point_criteria req)) = Some criteria \<and>
           getManualPointsForCriteria criteria = Inr (n, rule) \<and>
           response_data r1 = AddedData newTransaction (c_total_points c + n) n \<and>
           d1 = tryCheckAndUpgradeTier e (c_id c)
                  (tryCreateLoyaltyPoints e now c n (tx_id newTransaction)
                     (LedgerManual (add_requested_by req) None)
                     (d\<lparr>transactions := transactions d @ [newTransaction],
                        customers := updateCustomerById (c_id c)
                          (\<lambda>x. x\<lparr>c_total_points := c_total_points x + n, c_coins := c_coins x + n\<rparr>)
                          (customers d)\<rparr>)) \<and>
           tx_customer_id newTransaction = c_id c \<and> tx_type newTransaction = Earn \<and>
           tx_points newTransaction = n \<and> tx_status newTransaction = Completed"
proof -
  from c have cid: "c_id c = add_customer_id req" by (rule findCustomerById_id)
  from add ok c cid show ?thesis
    unfolding addPointsIndividual_def
    by (auto simp: response_handler_def createTransaction_def Let_def earnTransaction_def
        find_updateCustomerById
        split: option.splits sum.splits prod.splits)
qed


lemma reducePoints_reduced:
  assumes red: "reducePoints e now d req = (d2, r2)" and ok: "status_code r2 = 200"
  shows "\<exists>c. findCustomerById (red_customer_id req) (customers d) = Some c \<and>
             0 < red_points req \<and>
             customers d2 =
               updateCustomerById (red_customer_id req)
                 (\<lambda>x. x\<lparr>c_total_points := c_total_points x - red_points req\<rparr>) (customers d)"
proof (cases "findCustomerById (red_customer_id req) (customers d)")
  case None
  with red ok show ?thesis by (auto simp: reducePoints_def response_handler_def)
next
  case (Some c)
  then have cid: "c_id c = red_customer_id req" by (rule findCustomerById_id)
  obtain d1 fr where fifo: "redeemPointsFIFO now d (red_customer_id req) (red_points req) = (d1, fr)"
    by force
  with customers_redeemPointsFIFO[of now d "red_customer_id req" "red_points req"]
  have cs: "customers d1 = customers d" by simp
  from red ok Some cid fifo cs show ?thesis
    unfolding reducePoints_def
    by (auto simp: response_handler_def createTransaction_def Let_def
        split: if_splits option.splits prod.splits sum.splits)
qed

text \<open>
  Claim C10. A successful \<open>addPointsIndividual\<close> leaves the customer with \<open>total_points\<close>
  and \<open>coins\<close> both raised by the awarded amount (of the other fields only the tier may
  differ, through the tier check that follows the grant). A successful \<open>reducePoints\<close>
  changes the customer record only in \<open>total_points\<close>, lowered by the requested amount, and
  changes no other customer. So a grant of \<open>n\<close> followed by a successful reduction of \<open>n\<close>
  restores \<open>total_points\<close> and leaves \<open>coins\<close> higher by \<open>n\<close>.
\<close>

theorem grant_then_reduce_leaves_coins:
  assumes add: "addPointsIndividual e now d req = (d1, r1)" and ok1: "status_code r1 = 201"
    and awarded: "response_data r1 = AddedData newTransaction balance n"
    and c: "findCustomerById (add_customer_id req) (customers d) = Some c"
    and red: "reducePoints e' now' d1 rreq = (d2, r2)" and ok2: "status_code r2 = 200"
    and same: "red_customer_id rreq = add_customer_id req"
  shows "\<exists>c1 c2.
           findCustomerById (add_customer_id req) (customers d1) = Some c1 \<and>
           c1\<lparr>c_tier := c_tier c\<rparr> =
             c\<lparr>c_total_points := c_total_points c + n, c_coins := c_coins c + n\<rparr> \<and>
           findCustomerById (add_customer_id req) (customers d2) = Some c2 \<and>
           c2 = c1\<lparr>c_total_points := c_total_points c1 - red_points rreq\<rparr> \<and>
           c_coins c2 = c_coins c + n \<and>
           (\<forall>j. j \<noteq> add_customer_id req \<longrightarrow>
                findCustomerById j (customers d2) = findCustomerById j (customers d1)) \<and>
           (red_points rreq = n \<longrightarrow> c_total_points c2 = c_total_points c)"
proof -
  let ?i = "add_customer_id req"
  from c have cid: "c_id c = ?i" by (rule findCustomerById_id)
  from addPointsIndividual_created[OF add ok1 c] awarded obtain tx where
    d1: "d1 = tryCheckAndUpgradeTier e ?i
                  (tryCreateLoyaltyPoints e now c n (tx_id tx)
                     (LedgerManual (add_requested_by req) None)
                     (d\<lparr>transactions := transactions d @ [tx],
                        customers := updateCustomerById ?i
                          (\<lambda>x. x\<lparr>c_total_points := c_total_points x + n, c_coins := c_coins x + n\<rparr>)
                          (customers d)\<rparr>))"
    by (auto simp: cid)
  from reducePoints_reduced[OF red ok2] same obtain c1 where
    c1: "findCustomerById ?i (customers d1) = Some c1"
    and cs2: "customers d2 = updateCustomerById ?i
                 (\<lambda>x. x\<lparr>c_total_points := c_total_points x - red_points rreq\<rparr>) (customers d1)"
    by auto
  from c1 find_tryCheckAndUpgradeTier[of ?i e ?i _ c1] obtain y where
    y: "findCustomerById ?i (customers (tryCreateLoyaltyPoints e now c n (tx_id tx)
                     (LedgerManual (add_requested_by req) None)
                     (d\<lparr>transactions := transactions d @ [tx],
                        customers := updateCustomerById ?i
                          (\<lambda>x. x\<lparr>c_total_points := c_total_points x + n, c_coins := c_coins x + n\<rparr>)
                          (customers d)\<rparr>))) = Some y"
    and cy: "c1\<lparr>c_tier := c_tier y\<rparr> = y"
    unfolding d1 by blast
  from y c have yc: "y = c\<lparr>c_total_points := c_total_points c + n, c_coins := c_coins c + n\<rparr>"
    by (simp add: customers_tryCreateLoyaltyPoints find_updateCustomerById)
  then have ty: "c_tier y = c_tier c" by simp
  have a: "c1\<lparr>c_tier := c_tier c\<rparr> =
             c\<lparr>c_total_points := c_total_points c + n, c_coins := c_coins c + n\<rparr>"
    using cy ty yc by simp
  have tot1: "c_total_points c1 = c_total_points c + n" and coins1: "c_coins c1 = c_coins c + n"
  proof -
    from a have "c_total_points (c1\<lparr>c_tier := c_tier c\<rparr>) = c_total_points c + n"
      and "c_coins (c1\<lparr>c_tier := c_tier c\<rparr>) = c_coins c + n" by simp_all
    then show "c_total_points c1 = c_total_points c + n" "c_coins c1 = c_coins c + n" by simp_all
  qed
  let ?c2 = "c1\<lparr>c_total_points := c_total_points c1 - red_points rreq\<rparr>"
  have c2: "findCustomerById ?i (customers d2) = Some ?c2"
    using c1 by (simp add: cs2 find_updateCustomerById)
  have others: "\<forall>j. j \<noteq> ?i \<longrightarrow> findCustomerById j (customers d2) = findCustomerById j (customers d1)"
    by (simp add: cs2 find_updateCustomerById)
  from c1 a c2 others tot1 coins1 show ?thesis by auto
qed


theorem grant_then_reduce_witness:
  "status_code (snd (addPointsIndividual plain_env (day 6) grant_db welcome_grant)) = 201 \<and>
   status_code (snd (reducePoints plain_env (day 6)
       (fst (addPointsIndividual plain_env (day 6) grant_db welcome_grant)) take_back)) = 200 \<and>
   (\<exists>c2. findCustomerById 7 (customers (fst (reducePoints plain_env (day 6)
       (fst (addPointsIndividual plain_env (day 6) grant_db welcome_grant)) take_back))) = Some c2 \<and>
      c_total_points c2 = 150 \<and> c_coins c2 = 175)"
proof -
  let ?a = "addPointsIndividual plain_env (day 6) grant_db welcome_grant"
  let ?r = "reducePoints plain_env (day 6) (fst ?a) take_back"
  have add: "?a = (fst ?a, snd ?a)" and red: "?r = (fst ?r, snd ?r)" by simp_all
  have ok1: "status_code (snd ?a) = 201" by code_simp
  have awarded: "response_data (snd ?a) = AddedData welcome_transaction 175 25" by code_simp
  have c: "findCustomerById (add_customer_id welcome_grant) (customers grant_db) = Some fifo_customer"
    by code_simp
  have ok2: "status_code (snd ?r) = 200" by code_simp
  have same: "red_customer_id take_back = add_customer_id welcome_grant" by code_simp
  have n: "red_points take_back = 25" "add_customer_id welcome_grant = 7"
    "c_total_points fifo_customer = 150" "c_coins fifo_customer = 150"
    by (simp_all add: take_back_def welcome_grant_def fifo_customer_def)
  from grant_then_reduce_leaves_coins[OF add ok1 awarded c red ok2 same] ok1 ok2 n
  show ?thesis by auto
qed





lemma validate_row_Inr:
  "validate_row e d index row = Inr er \<Longrightarrow>
     rowPoints row = er_points er \<and> er_customer er \<in> set (customers d)"
  by (auto simp: validate_row_def rowPoints_def Let_def find_Some_iff
      split: option.splits if_splits)

lemma validate_rows_all_valid:
  "\<forall>row \<in> set rows. row_valid e d row \<Longrightarrow>
     \<exists>ers. validate_rows e d index rows errs enriched = (errs, enriched @ ers) \<and>
           length ers = length rows \<and> map er_points ers = map rowPoints rows \<and>
           (\<forall>er \<in> set ers. er_customer er \<in> set (customers d))"
proof (induction rows arbitrary: index enriched)
  case Nil
  then show ?case by simp
next
  case (Cons row rows)
  from Cons.prems have "row_valid e d row" by simp
  with validate_row_valid[of e d index row] obtain er where
    er: "validate_row e d index row = Inr er" by auto
  from Cons.prems have "\<forall>row \<in> set rows. row_valid e d row" by simp
  from Cons.IH[OF this, of "index + 1" "enriched @ [er]"] obtain ers where
    ers: "validate_rows e d (index + 1) rows errs (enriched @ [er]) = (errs, (enriched @ [er]) @ ers)"
      "length ers = length rows" "map er_points ers = map rowPoints rows"
      "\<forall>x \<in> set ers. er_customer x \<in> set (customers d)" by blast
  with er validate_row_Inr[OF er] show ?case
    by (intro exI[of _ "er # ers"]) simp
qed

text \<open>
  When \<open>findAppType\<close> throws, each of the three operations answers 500 and the state is
  the one it started from; no ledger entry is attempted.
\<close>

lemma addPointsIndividual_lookup_throws:
  assumes "findCustomerById (add_customer_id req) (customers d) = Some c"
    and "resolvePointCriteria e d (Some (add_point_criteria req)) = Some criteria"
    and "getManualPointsForCriteria criteria = Inr (n, rule)"
    and "findAppType e (Some (add_requested_by req)) = Inl err"
  shows "addPointsIndividual e now d req =
           (d, response_handler 500 ''Failed to add manual points'' (ErrorData (error_message err)))"
  using assms by (simp add: addPointsIndividual_def)

lemma addPointsBulk_lookup_throws:
  assumes upload: "bulk_file breq = Some (Sheet rows)"
    and rb: "normalizeString (bulk_requested_by breq) \<noteq> []"
    and ne: "rows \<noteq> []" and valid: "\<forall>row \<in> set rows. row_valid e d row"
    and app: "findAppType e (Some (normalizeString (bulk_requested_by breq))) = Inl err"
  shows "addPointsBulk e now d breq =
           (d, response_handler 500 ''Failed to process bulk manual points''
                 (ErrorData (error_message err)))"
proof -
  from validate_rows_all_valid[OF valid, of 0 "[]" "[]"] obtain ers where
    "validate_rows e d 0 rows [] [] = ([], ers)" by auto
  with upload rb ne app show ?thesis by (simp add: addPointsBulk_def Let_def)
qed

lemma reducePoints_lookup_throws:
  assumes c: "findCustomerById (red_customer_id req) (customers d) = Some c"
    and pos: "0 < red_points req"
    and enough: "red_points req \<le> activeLedgerSum now d (red_customer_id req)"
    and app: "findAppType e (Some (red_requested_by req)) = Inl err"
  shows "reducePoints e now d req =
           (d, response_handler 500 ''Failed to reduce manual points''
                 (ErrorData (error_message err)))"
proof -
  from c have cid: "c_id c = red_customer_id req" by (rule findCustomerById_id)
  obtain d1 fr where
    fifo: "redeemPointsFIFO now d (red_customer_id req) (red_points req) = (d1, fr)" by force
  with enough have "success fr"
    by (auto simp: redeemPointsFIFO_def Let_def totalAvailablePoints_validPoints
        split: prod.splits)
  with c pos app cid fifo show ?thesis by (simp add: reducePoints_def)
qed

lemma lookup_throws_example:
  "addPointsIndividual plain_env (day 6) grant_db (welcome_grant\<lparr>add_requested_by := ''(''\<rparr>) =
     (grant_db, response_handler 500 ''Failed to add manual points''
                  (ErrorData ''Invalid regular expression''))"
  by code_simp












end
